theory Spec2Isabelle
  imports Main "HOL-Library.Sublist"
begin

section \<open>Go library functions used by gitsync\<close>

text \<open>
  Go strings are byte sequences, modelled as \<^typ>\<open>string\<close> (a list of 8-bit characters).
  \<open>strings.Contains(s, substr)\<close> reports whether \<open>substr\<close> occurs in \<open>s\<close>; the empty string
  occurs in every string.
\<close>

fun Contains :: "string \<Rightarrow> string \<Rightarrow> bool" where
  "Contains [] substr = (substr = [])"
| "Contains (c # cs) substr = (prefix substr (c # cs) \<or> Contains cs substr)"

text \<open>
  The white space of \<open>unicode.IsSpace\<close>, as UTF-8 byte sequences: the six ASCII characters
  tab, line feed, vertical tab, form feed, carriage return and space, then U+0085, U+00A0,
  U+1680, U+2000 to U+200A, U+2028, U+2029, U+202F, U+205F and U+3000.
\<close>

definition White_Space :: "string list" where
  "White_Space =
     [[CHR 0x09], [CHR 0x0A], [CHR 0x0B], [CHR 0x0C], [CHR 0x0D], [CHR 0x20],
      [CHR 0xC2, CHR 0x85], [CHR 0xC2, CHR 0xA0],
      [CHR 0xE1, CHR 0x9A, CHR 0x80],
      [CHR 0xE2, CHR 0x80, CHR 0x80], [CHR 0xE2, CHR 0x80, CHR 0x81],
      [CHR 0xE2, CHR 0x80, CHR 0x82], [CHR 0xE2, CHR 0x80, CHR 0x83],
      [CHR 0xE2, CHR 0x80, CHR 0x84], [CHR 0xE2, CHR 0x80, CHR 0x85],
      [CHR 0xE2, CHR 0x80, CHR 0x86], [CHR 0xE2, CHR 0x80, CHR 0x87],
      [CHR 0xE2, CHR 0x80, CHR 0x88], [CHR 0xE2, CHR 0x80, CHR 0x89],
      [CHR 0xE2, CHR 0x80, CHR 0x8A],
      [CHR 0xE2, CHR 0x80, CHR 0xA8], [CHR 0xE2, CHR 0x80, CHR 0xA9],
      [CHR 0xE2, CHR 0x80, CHR 0xAF], [CHR 0xE2, CHR 0x81, CHR 0x9F],
      [CHR 0xE3, CHR 0x80, CHR 0x80]]"

text \<open>The number of bytes of the white-space rune a string starts (ends) with, 0 if none.\<close>

definition space_prefix_len :: "string \<Rightarrow> nat" where
  "space_prefix_len s =
     (case find (\<lambda>w. prefix w s) White_Space of None \<Rightarrow> 0 | Some w \<Rightarrow> length w)"

definition space_suffix_len :: "string \<Rightarrow> nat" where
  "space_suffix_len s =
     (case find (\<lambda>w. suffix w s) White_Space of None \<Rightarrow> 0 | Some w \<Rightarrow> length w)"

fun TrimLeftSpace :: "string \<Rightarrow> string" where
  "TrimLeftSpace [] = []"
| "TrimLeftSpace (c # cs) =
     (if space_prefix_len (c # cs) = 0 then c # cs
      else TrimLeftSpace (drop (space_prefix_len (c # cs) - 1) cs))"

text \<open>
  \<open>strings.TrimSpace\<close>: all leading and trailing white space removed. The trailing white
  space of \<open>s\<close> is the leading white space of its reversal, rune by rune, so the right trim
  walks the reversed string with the suffix test on the original orientation.
\<close>

fun TrimRightRev :: "string \<Rightarrow> string" where
  "TrimRightRev [] = []"
| "TrimRightRev (c # cs) =
     (if space_suffix_len (rev (c # cs)) = 0 then c # cs
      else TrimRightRev (drop (space_suffix_len (rev (c # cs)) - 1) cs))"

definition TrimSpace :: "string \<Rightarrow> string" where
  "TrimSpace s = rev (TrimRightRev (rev (TrimLeftSpace s)))"

text \<open>\<open>strings.Split(s, "\n")\<close>: the pieces between line feeds; one piece for a string without any.\<close>

fun SplitLines :: "string \<Rightarrow> string list" where
  "SplitLines [] = [[]]"
| "SplitLines (c # cs) =
     (if c = CHR 0x0A then [] # SplitLines cs
      else (case SplitLines cs of [] \<Rightarrow> [[c]] | l # ls \<Rightarrow> (c # l) # ls))"

text \<open>\<open>strings.Fields\<close>: the maximal runs of bytes that are not white space.\<close>

fun FieldsFrom :: "string \<Rightarrow> string \<Rightarrow> string list" where
  "FieldsFrom cur [] = (if cur = [] then [] else [cur])"
| "FieldsFrom cur (c # cs) =
     (if space_prefix_len (c # cs) = 0 then FieldsFrom (cur @ [c]) cs
      else (if cur = [] then [] else [cur])
           @ FieldsFrom [] (drop (space_prefix_len (c # cs) - 1) cs))"

definition Fields :: "string \<Rightarrow> string list" where
  "Fields s = FieldsFrom [] s"

section \<open>The environment: git and the Go runtime\<close>

text \<open>
  Every \<open>exec.Command("git", ...)\<close> of the program is recorded by its argument vector. The
  outcome of a command is not computed by the program; it is given by the environment, as a
  function of the commands run so far and of the command itself. \<open>cmd_err\<close> is the Go
  \<open>error\<close> of \<open>Run\<close>, \<open>Output\<close> or \<open>CombinedOutput\<close> (\<open>None\<close> for \<open>nil\<close>, otherwise its
  message), \<open>cmd_out\<close> the bytes the call returns.
\<close>

type_synonym argv = "string list"

record CmdResult =
  cmd_out :: string
  cmd_err :: "string option"

text \<open>
  Besides git, the environment fixes the \<open>-m\<close> flag (\<open>manualMode\<close>, set once in \<open>main\<close>) and
  three library functions whose tables are not part of the repository: \<open>strings.ToLower\<close>,
  \<open>fmt.Sscanf(s, "%d", &n)\<close> (\<open>None\<close> when nothing is stored) and \<open>fmt.Errorf(format)\<close>
  called with a format and no operands.
\<close>

record Env =
  git :: "argv list \<Rightarrow> argv \<Rightarrow> CmdResult"
  manualMode :: bool
  ToLower :: "string \<Rightarrow> string"
  Sscanf_d :: "string \<Rightarrow> int option"
  Errorf0 :: "string \<Rightarrow> string"

definition exec :: "Env \<Rightarrow> argv list \<Rightarrow> argv \<Rightarrow> argv list \<times> CmdResult" where
  "exec env log args = (log @ [args], git env log args)"

section \<open>git.go and tags.go\<close>

record Branch =
  Name :: string
  Description :: string
  Behind :: int
  Ahead :: int
  LastCommit :: string
  Selected :: bool
  Status :: string

definition GetAllBranches :: "Env \<Rightarrow> argv list \<Rightarrow> argv list \<times> (string + string list)" where
  "GetAllBranches env log =
     (let (log1, r) = exec env log [''branch'', ''--format=%(refname:short)''] in
      case cmd_err r of
        Some e \<Rightarrow> (log1, Inl e)
      | None \<Rightarrow> (log1, Inr (SplitLines (TrimSpace (cmd_out r)))))"

definition GetBranchTag :: "Env \<Rightarrow> argv list \<Rightarrow> string \<Rightarrow> argv list \<times> string" where
  "GetBranchTag env log branchName =
     (let (log1, r) = exec env log [''config'', ''branch.'' @ branchName @ ''.description''] in
      case cmd_err r of
        Some e \<Rightarrow> (log1, [])
      | None \<Rightarrow> (log1, TrimSpace (cmd_out r)))"

definition SetBranchTag :: "Env \<Rightarrow> argv list \<Rightarrow> string \<Rightarrow> string \<Rightarrow> argv list \<times> string option" where
  "SetBranchTag env log branchName description =
     (let (log1, r) = exec env log [''config'', ''branch.'' @ branchName @ ''.description'', description]
      in (log1, cmd_err r))"

definition RemoveBranchTag :: "Env \<Rightarrow> argv list \<Rightarrow> string \<Rightarrow> argv list \<times> string option" where
  "RemoveBranchTag env log branchName =
     (let (log1, r) = exec env log [''config'', ''--unset'', ''branch.'' @ branchName @ ''.description'']
      in (log1, cmd_err r))"

text \<open>
  \<open>GetBranchInfo\<close> returns a \<open>Branch\<close> pointer and an \<open>error\<close>; the sum type keeps the error
  component although the only \<open>return\<close> of the function passes \<open>nil\<close>.
\<close>

definition GetBranchInfo ::
  "Env \<Rightarrow> argv list \<Rightarrow> string \<Rightarrow> string \<Rightarrow> argv list \<times> (string + Branch)" where
  "GetBranchInfo env log branchName baseBranch =
     (let b0 = \<lparr>Name = branchName, Description = [], Behind = 0, Ahead = 0,
                LastCommit = [], Selected = False, Status = ''ok''\<rparr>;
          (log1, tag) = GetBranchTag env log branchName;
          b1 = b0\<lparr>Description := tag\<rparr>;
          (log2, r2) = exec env log1 [''log'', ''-1'', ''--format=%ar'', branchName];
          b2 = (if cmd_err r2 = None then b1\<lparr>LastCommit := TrimSpace (cmd_out r2)\<rparr> else b1);
          (log3, r3) = exec env log2
             [''rev-list'', ''--left-right'', ''--count'', baseBranch @ ''...'' @ branchName];
          b3 = (if cmd_err r3 = None then
                  (let parts = Fields (cmd_out r3) in
                   if length parts = 2 then
                     (let b4 = (case Sscanf_d env (parts ! 0) of
                                  None \<Rightarrow> b2 | Some n \<Rightarrow> b2\<lparr>Behind := n\<rparr>);
                          b5 = (case Sscanf_d env (parts ! 1) of
                                  None \<Rightarrow> b4 | Some n \<Rightarrow> b4\<lparr>Ahead := n\<rparr>)
                      in if Behind b5 > 0 then b5\<lparr>Status := ''behind''\<rparr> else b5)
                   else b2)
                else b2)
      in (log3, Inr b3))"

definition FetchUpstream :: "Env \<Rightarrow> argv list \<Rightarrow> string \<Rightarrow> string \<Rightarrow> argv list \<times> string option" where
  "FetchUpstream env log remote baseBranch =
     (let (log1, r) = exec env log [''fetch'', remote, baseBranch] in (log1, cmd_err r))"

definition UpdateBaseBranch :: "Env \<Rightarrow> argv list \<Rightarrow> string \<Rightarrow> string \<Rightarrow> argv list \<times> string option" where
  "UpdateBaseBranch env log baseBranch remote =
     (let (log1, r1) = exec env log [''rev-list'', baseBranch, ''^'' @ remote @ ''/'' @ baseBranch] in
      case cmd_err r1 of
        Some e \<Rightarrow> (log1, Some (''could not check for branch divergence: '' @ e))
      | None \<Rightarrow>
        if length (TrimSpace (cmd_out r1)) > 0 then
          (log1, Some (''local base branch '' @ [CHR 0x27] @ baseBranch @ [CHR 0x27]
                       @ '' has diverged from '' @ [CHR 0x27] @ remote @ ''/'' @ baseBranch
                       @ [CHR 0x27] @ ''. Please resolve manually''))
        else
          (let (log2, r2) = exec env log1 [''checkout'', baseBranch] in
           case cmd_err r2 of
             Some e \<Rightarrow> (log2, Some (''failed to checkout '' @ baseBranch @ '': '' @ e))
           | None \<Rightarrow>
             (let (log3, r3) = exec env log2 [''reset'', ''--hard'', remote @ ''/'' @ baseBranch] in
              case cmd_err r3 of
                Some e \<Rightarrow> (log3, Some (''failed to reset to '' @ remote @ ''/'' @ baseBranch
                                        @ '': '' @ e))
              | None \<Rightarrow>
                (let (log4, r4) = exec env log3
                       [''push'', ''origin'', baseBranch, ''--force-with-lease''] in
                 case cmd_err r4 of
                   Some e \<Rightarrow> (log4, Some (''failed to push to origin: '' @ e))
                 | None \<Rightarrow> (log4, None)))))"

definition RebaseBranch :: "Env \<Rightarrow> argv list \<Rightarrow> string \<Rightarrow> string \<Rightarrow> argv list \<times> string option" where
  "RebaseBranch env log branchName baseBranch =
     (let (log1, r1) = exec env log [''checkout'', branchName] in
      case cmd_err r1 of
        Some e \<Rightarrow> (log1, Some (''failed to checkout: '' @ e))
      | None \<Rightarrow>
        (let (log2, r2) = exec env log1 [''rebase'', baseBranch] in
         case cmd_err r2 of
           Some e \<Rightarrow>
             (let (log3, r3) = exec env log2 [''rebase'', ''--abort''] in
              (log3, Some ''rebase conflict''))
         | None \<Rightarrow> (log2, None)))"

definition PushBranch :: "Env \<Rightarrow> argv list \<Rightarrow> string \<Rightarrow> argv list \<times> string option" where
  "PushBranch env log branchName =
     (let (log1, r) = exec env log [''push'', ''origin'', branchName, ''--force-with-lease'']
      in (log1, cmd_err r))"

text \<open>
  The four functions below return \<open>fmt.Errorf(strings.TrimSpace(string(output)))\<close> on failure:
  the trimmed output is the format string.
\<close>

definition failWithOutput :: "Env \<Rightarrow> CmdResult \<Rightarrow> string option" where
  "failWithOutput env r =
     (case cmd_err r of Some e \<Rightarrow> Some (Errorf0 env (TrimSpace (cmd_out r))) | None \<Rightarrow> None)"

definition DeleteLocalBranch :: "Env \<Rightarrow> argv list \<Rightarrow> string \<Rightarrow> argv list \<times> string option" where
  "DeleteLocalBranch env log branchName =
     (let (log1, r) = exec env log [''branch'', ''-d'', branchName] in (log1, failWithOutput env r))"

definition DeleteRemoteBranch :: "Env \<Rightarrow> argv list \<Rightarrow> string \<Rightarrow> argv list \<times> string option" where
  "DeleteRemoteBranch env log branchName =
     (let (log1, r) = exec env log [''push'', ''origin'', ''--delete'', branchName]
      in (log1, failWithOutput env r))"

definition StashChanges :: "Env \<Rightarrow> argv list \<Rightarrow> argv list \<times> string option" where
  "StashChanges env log =
     (let (log1, r) = exec env log [''stash''] in (log1, failWithOutput env r))"

definition StashPop :: "Env \<Rightarrow> argv list \<Rightarrow> argv list \<times> string option" where
  "StashPop env log =
     (let (log1, r) = exec env log [''stash'', ''pop''] in (log1, failWithOutput env r))"

definition HasUncommittedChanges :: "Env \<Rightarrow> argv list \<Rightarrow> argv list \<times> bool" where
  "HasUncommittedChanges env log =
     (let (log1, r) = exec env log [''status'', ''--porcelain'', ''-uno''] in
      case cmd_err r of
        Some e \<Rightarrow> (log1, False)
      | None \<Rightarrow> (log1, length (TrimSpace (cmd_out r)) > 0))"

text \<open>
  \<open>GetBranchesWithInfo\<close>: the loop over the branch names, with its three \<open>continue\<close>s. The
  inner loop over the patterns sets \<open>skip\<close> at the first pattern the name contains.
\<close>

fun matchesAny :: "string \<Rightarrow> string list \<Rightarrow> bool" where
  "matchesAny name [] = False"
| "matchesAny name (pattern # patterns) =
     (if Contains name pattern then True else matchesAny name patterns)"

fun collectBranches ::
  "Env \<Rightarrow> argv list \<Rightarrow> string \<Rightarrow> string list \<Rightarrow> Branch list \<Rightarrow> string list
     \<Rightarrow> argv list \<times> Branch list" where
  "collectBranches env log baseBranch excludePatterns branches [] = (log, branches)"
| "collectBranches env log baseBranch excludePatterns branches (name # names) =
     (if name = baseBranch then
        collectBranches env log baseBranch excludePatterns branches names
      else if matchesAny name excludePatterns then
        collectBranches env log baseBranch excludePatterns branches names
      else
        (case GetBranchInfo env log name baseBranch of
           (log1, Inl e) \<Rightarrow> collectBranches env log1 baseBranch excludePatterns branches names
         | (log1, Inr branch) \<Rightarrow>
             collectBranches env log1 baseBranch excludePatterns (branches @ [branch]) names))"

definition GetBranchesWithInfo ::
  "Env \<Rightarrow> argv list \<Rightarrow> string \<Rightarrow> string list \<Rightarrow> argv list \<times> (string + Branch list)" where
  "GetBranchesWithInfo env log baseBranch excludePatterns =
     (case GetAllBranches env log of
        (log1, Inl e) \<Rightarrow> (log1, Inl e)
      | (log1, Inr branchNames) \<Rightarrow>
          (case collectBranches env log1 baseBranch excludePatterns [] branchNames of
             (log2, branches) \<Rightarrow> (log2, Inr branches)))"

section \<open>ui.go: the session model\<close>

datatype state =
    stateLoading | stateBrowsing | stateConfirming | stateUpdating | stateDone | stateError
  | stateTagging | stateHelp | stateConfirmingDelete | stateDeleting | stateConfirmingStash

record Config =
  BaseBranch :: string
  UpstreamRemote :: string
  OriginRemote :: string
  ExcludePatterns :: "string list"

text \<open>
  \<open>config\<close> is a pointer, \<open>nil\<close> until the repository is loaded: \<open>None\<close>. \<open>branches\<close> is a
  slice of pointers to distinct \<open>Branch\<close> objects; it is modelled by the list of the objects,
  and a pointer to one of them by its position in that list. \<open>cursor\<close> and the three counters
  are Go \<open>int\<close>s that the program only ever sets to 0, increments, or decrements when
  positive: natural numbers.
\<close>

record Model =
  state :: state
  config :: "Config option"
  branches :: "Branch list"
  cursor :: nat
  message :: string
  error :: string
  currentBranch :: string
  originalBranch :: string
  updateIndex :: nat
  successCount :: nat
  failedBranches :: "string list"
  tagInput :: string
  tagMode :: bool
  commandLog :: "string list"
  searchMode :: bool
  searchQuery :: string
  loadingDots :: string
  deleteMode :: bool
  selectedForActionCount :: nat
  didStash :: bool

datatype Msg =
    KeyMsg string
  | loadedMsg "Branch list" Config string
  | errorMsg string
  | branchUpdatedMsg string bool string
  | branchDeletedMsg string bool string
  | tickMsg
  | otherMsg

text \<open>
  A \<open>tea.Cmd\<close> is \<open>nil\<close>, \<open>tea.Quit\<close>, the timer of \<open>tick()\<close>, or one of the two closures
  \<open>m.updateNextBranch()\<close> and \<open>m.deleteNextBranch()\<close>, which capture the receiver \<open>m\<close>.
\<close>

datatype Cmd = CmdNil | Quit | Tick | UpdateNextBranch Model | DeleteNextBranch Model

text \<open>
  A handler returns \<open>Inr (log, m, cmd)\<close>: the git commands run so far, the new model and the
  command for the runtime. \<open>Inl log\<close> is a nil-pointer panic (a read of \<open>m.config\<close> before
  the repository was loaded) after the commands of \<open>log\<close>.
\<close>

type_synonym Step = "argv list + (argv list \<times> Model \<times> Cmd)"

definition InitialModel :: Model where
  "InitialModel =
     \<lparr>state = stateLoading, config = None, branches = [], cursor = 0,
      message = ''Loading repository information...'', error = [], currentBranch = [],
      originalBranch = [], updateIndex = 0, successCount = 0, failedBranches = [],
      tagInput = [], tagMode = False, commandLog = [], searchMode = False, searchQuery = [],
      loadingDots = [], deleteMode = False, selectedForActionCount = 0, didStash = False\<rparr>"

text \<open>\<open>%d\<close> of a non-negative count.\<close>

fun Itoa :: "nat \<Rightarrow> string" where
  "Itoa n = (if n < 10 then [''0123456789'' ! n]
             else Itoa (n div 10) @ [''0123456789'' ! (n mod 10)])"

declare Itoa.simps [simp del]

text \<open>The loops over \<open>m.branches\<close>.\<close>

definition selectedCount :: "Branch list \<Rightarrow> nat" where
  "selectedCount bs = length (filter Selected bs)"

definition deselectAll :: "Branch list \<Rightarrow> Branch list" where
  "deselectAll bs = map (\<lambda>b. b\<lparr>Selected := False\<rparr>) bs"

fun markStatus :: "string \<Rightarrow> string \<Rightarrow> Branch list \<Rightarrow> Branch list" where
  "markStatus branch st [] = []"
| "markStatus branch st (b # bs) =
     (if Name b = branch then b\<lparr>Status := st\<rparr> # bs else b # markStatus branch st bs)"

fun findTarget :: "Branch list \<Rightarrow> nat \<Rightarrow> nat \<Rightarrow> Branch option" where
  "findTarget [] currentIndex idx = None"
| "findTarget (b # bs) currentIndex idx =
     (if Selected b then
        (if currentIndex = idx then Some b else findTarget bs (currentIndex + 1) idx)
      else findTarget bs currentIndex idx)"

text \<open>The predicted commands shown while updating (built in three places of ui.go).\<close>

definition updateCommandLog :: "Config \<Rightarrow> Branch list \<Rightarrow> string list" where
  "updateCommandLog cfg bs =
     [''git fetch '' @ UpstreamRemote cfg @ '' '' @ BaseBranch cfg,
      ''git checkout '' @ BaseBranch cfg,
      ''git reset --hard '' @ UpstreamRemote cfg @ ''/'' @ BaseBranch cfg,
      ''git push origin '' @ BaseBranch cfg @ '' --force-with-lease'']
     @ concat (map (\<lambda>b. [''git checkout '' @ Name b,
                          ''git rebase '' @ BaseBranch cfg,
                          ''git push origin '' @ Name b @ '' --force-with-lease''])
                   (filter Selected bs))"

definition deleteCommandLog :: "Branch list \<Rightarrow> string list" where
  "deleteCommandLog bs =
     concat (map (\<lambda>b. [''git branch -d '' @ Name b, ''git push origin --delete '' @ Name b])
                 (filter Selected bs))"

subsection \<open>The two branch commands\<close>

text \<open>
  The step of \<open>updateNextBranch\<close> under the comment ``Update base branch first (only on
  first iteration)'': fetch, then \<open>UpdateBaseBranch\<close>; the result is the error message of
  the \<open>branchUpdatedMsg\<close> returned on failure.
\<close>

definition updateBaseFirst :: "Env \<Rightarrow> argv list \<Rightarrow> Config \<Rightarrow> argv list \<times> string option" where
  "updateBaseFirst env log cfg =
     (case FetchUpstream env log (UpstreamRemote cfg) (BaseBranch cfg) of
        (l1, Some e) \<Rightarrow> (l1, Some ''fetch failed'')
      | (l1, None) \<Rightarrow> UpdateBaseBranch env l1 (BaseBranch cfg) (UpstreamRemote cfg))"

definition updateNextBranch :: "Env \<Rightarrow> argv list \<Rightarrow> Model \<Rightarrow> argv list + (argv list \<times> Msg)" where
  "updateNextBranch env log m =
     (case findTarget (branches m) 0 (updateIndex m) of
        None \<Rightarrow> Inr (log, branchUpdatedMsg [] False ''branch not found'')
      | Some targetBranch \<Rightarrow>
        (case config m of
           None \<Rightarrow> Inl log
         | Some cfg \<Rightarrow>
           (let (log1, guard) =
                  (if updateIndex m = 0 then updateBaseFirst env log cfg else (log, None))
            in case guard of
                 Some e \<Rightarrow> Inr (log1, branchUpdatedMsg (Name targetBranch) False e)
               | None \<Rightarrow>
                 (case RebaseBranch env log1 (Name targetBranch) (BaseBranch cfg) of
                    (log2, Some e) \<Rightarrow> Inr (log2, branchUpdatedMsg (Name targetBranch) False e)
                  | (log2, None) \<Rightarrow>
                    (case PushBranch env log2 (Name targetBranch) of
                       (log3, Some e) \<Rightarrow>
                         Inr (log3, branchUpdatedMsg (Name targetBranch) False ''push failed'')
                     | (log3, None) \<Rightarrow>
                         Inr (log3, branchUpdatedMsg (Name targetBranch) True []))))))"

definition deleteNextBranch :: "Env \<Rightarrow> argv list \<Rightarrow> Model \<Rightarrow> argv list + (argv list \<times> Msg)" where
  "deleteNextBranch env log m =
     (case findTarget (branches m) 0 (updateIndex m) of
        None \<Rightarrow> Inr (log, branchDeletedMsg [] False ''branch not found'')
      | Some targetBranch \<Rightarrow>
        (case DeleteLocalBranch env log (Name targetBranch) of
           (log1, Some e) \<Rightarrow> Inr (log1, branchDeletedMsg (Name targetBranch) False e)
         | (log1, None) \<Rightarrow>
           (case DeleteRemoteBranch env log1 (Name targetBranch) of
              (log2, Some e) \<Rightarrow> Inr (log2, branchDeletedMsg (Name targetBranch) False e)
            | (log2, None) \<Rightarrow> Inr (log2, branchDeletedMsg (Name targetBranch) True []))))"

subsection \<open>Key handlers\<close>

text \<open>
  \<open>getFilteredBranches\<close> returns pointers to the branches matching the search query, in the
  order of \<open>m.branches\<close>: here, their positions in \<open>m.branches\<close>.
\<close>

definition getFilteredBranches :: "Env \<Rightarrow> Model \<Rightarrow> nat list" where
  "getFilteredBranches env m =
     (if searchQuery m = [] then [0..<length (branches m)]
      else
        (let query = ToLower env (searchQuery m) in
         filter (\<lambda>i. Contains (ToLower env (Name (branches m ! i))) query
                    \<or> Contains (ToLower env (Description (branches m ! i))) query)
                [0..<length (branches m)]))"

definition setSelected :: "nat list \<Rightarrow> bool \<Rightarrow> Branch list \<Rightarrow> Branch list" where
  "setSelected idxs v bs = fold (\<lambda>i bs'. bs'[i := (bs' ! i)\<lparr>Selected := v\<rparr>]) idxs bs"

definition handleSearchKeys :: "Env \<Rightarrow> argv list \<Rightarrow> Model \<Rightarrow> string \<Rightarrow> Step" where
  "handleSearchKeys env log m key =
     (if key = ''enter'' \<or> key = ''esc'' then Inr (log, m\<lparr>searchMode := False\<rparr>, CmdNil)
      else if key = ''backspace'' then
        (if length (searchQuery m) > 0
         then Inr (log, m\<lparr>searchQuery := butlast (searchQuery m), cursor := 0\<rparr>, CmdNil)
         else Inr (log, m, CmdNil))
      else if key = ''ctrl+c'' then Inr (log, m, Quit)
      else if length key = 1
        then Inr (log, m\<lparr>searchQuery := searchQuery m @ key, cursor := 0\<rparr>, CmdNil)
        else Inr (log, m, CmdNil))"

definition handleBrowsingKeys :: "Env \<Rightarrow> argv list \<Rightarrow> Model \<Rightarrow> string \<Rightarrow> Step" where
  "handleBrowsingKeys env log m key =
     (if searchMode m then handleSearchKeys env log m key
      else if key = ''ctrl+c'' \<or> key = ''q'' then Inr (log, m, Quit)
      else if key = ''up'' \<or> key = ''k'' then
        (let filtered = getFilteredBranches env m;
             m1 = (if cursor m > 0 then m\<lparr>cursor := cursor m - 1\<rparr> else m);
             m2 = (if cursor m1 \<ge> length filtered \<and> length filtered > 0
                   then m1\<lparr>cursor := length filtered - 1\<rparr> else m1)
         in Inr (log, m2, CmdNil))
      else if key = ''down'' \<or> key = ''j'' then
        (let filtered = getFilteredBranches env m in
         if int (cursor m) < int (length filtered) - 1
         then Inr (log, m\<lparr>cursor := cursor m + 1\<rparr>, CmdNil)
         else Inr (log, m, CmdNil))
      else if key = '' '' then
        (let filtered = getFilteredBranches env m in
         if cursor m < length filtered then
           (let i = filtered ! cursor m; b = branches m ! i in
            Inr (log, m\<lparr>branches := (branches m)[i := b\<lparr>Selected := \<not> Selected b\<rparr>]\<rparr>, CmdNil))
         else Inr (log, m, CmdNil))
      else if key = ''a'' then
        Inr (log, m\<lparr>branches := setSelected (getFilteredBranches env m) True (branches m)\<rparr>,
             CmdNil)
      else if key = ''n'' then
        Inr (log, m\<lparr>branches := setSelected (getFilteredBranches env m) False (branches m)\<rparr>,
             CmdNil)
      else if key = ''d'' then
        (if \<not> deleteMode m then
           Inr (log, m\<lparr>deleteMode := True,
                  message := ''DELETE MODE: Select branches and press 'd' to confirm deletion.''\<rparr>,
                CmdNil)
         else
           (let n = selectedCount (branches m) in
            if n > 0 then
              Inr (log, m\<lparr>state := stateConfirmingDelete,
                     message := ''Ready to delete '' @ Itoa n @ '' branch(es).''\<rparr>, CmdNil)
            else Inr (log, m\<lparr>message := ''No branches selected for deletion.''\<rparr>, CmdNil)))
      else if key = ''h'' then Inr (log, m\<lparr>state := stateHelp\<rparr>, CmdNil)
      else if key = ''t'' then
        (let filtered = getFilteredBranches env m in
         if cursor m < length filtered then
           Inr (log, m\<lparr>state := stateTagging,
                  tagInput := Description (branches m ! (filtered ! cursor m))\<rparr>, CmdNil)
         else Inr (log, m, CmdNil))
      else if key = ''/'' then
        Inr (log, m\<lparr>searchMode := True, searchQuery := [], cursor := 0\<rparr>, CmdNil)
      else if key = ''esc'' then
        (if searchQuery m \<noteq> [] then Inr (log, m\<lparr>searchQuery := [], cursor := 0\<rparr>, CmdNil)
         else if deleteMode m then
           Inr (log, m\<lparr>deleteMode := False, message := [],
                  branches := deselectAll (branches m)\<rparr>, CmdNil)
         else Inr (log, m, CmdNil))
      else if key = ''enter'' then
        (if deleteMode m then Inr (log, m, CmdNil)
         else
           (case HasUncommittedChanges env log of
              (log1, True) \<Rightarrow>
                Inr (log1, m\<lparr>state := stateConfirmingStash,
                       message := ''You have uncommitted changes. Stash them and proceed? (y/n)''\<rparr>,
                     CmdNil)
            | (log1, False) \<Rightarrow>
              (let n = selectedCount (branches m) in
               if n = 0 then Inr (log1, m\<lparr>message := ''No branches selected''\<rparr>, CmdNil)
               else
                 (case config m of
                    None \<Rightarrow> Inl log1
                  | Some cfg \<Rightarrow>
                    (let m1 = m\<lparr>commandLog := updateCommandLog cfg (branches m)\<rparr> in
                     if manualMode env then
                       Inr (log1, m1\<lparr>state := stateConfirming,
                              message := ''Ready to update '' @ Itoa n
                                @ '' branch(es). Press 'y' to continue, 'n' to cancel.''\<rparr>,
                            CmdNil)
                     else
                       (let m2 = m1\<lparr>state := stateUpdating, updateIndex := 0,
                                    successCount := 0, failedBranches := [],
                                    selectedForActionCount := n\<rparr>
                        in Inr (log1, m2, UpdateNextBranch m2)))))))
      else Inr (log, m, CmdNil))"

definition handleConfirmingKeys :: "Env \<Rightarrow> argv list \<Rightarrow> Model \<Rightarrow> string \<Rightarrow> Step" where
  "handleConfirmingKeys env log m key =
     (if key = ''y'' \<or> key = ''Y'' then
        (case config m of
           None \<Rightarrow> Inl log
         | Some cfg \<Rightarrow>
           (let m1 = m\<lparr>state := stateUpdating, updateIndex := 0, successCount := 0,
                        failedBranches := [],
                        selectedForActionCount := selectedCount (branches m),
                        commandLog := updateCommandLog cfg (branches m)\<rparr>
            in Inr (log, m1, UpdateNextBranch m1)))
      else if key = ''n'' \<or> key = ''N'' \<or> key = ''q'' \<or> key = ''ctrl+c'' then
        Inr (log, m\<lparr>state := stateBrowsing, message := ''Update cancelled''\<rparr>, CmdNil)
      else Inr (log, m, CmdNil))"

definition handleConfirmingDeleteKeys :: "Env \<Rightarrow> argv list \<Rightarrow> Model \<Rightarrow> string \<Rightarrow> Step" where
  "handleConfirmingDeleteKeys env log m key =
     (if key = ''y'' \<or> key = ''Y'' then
        (let m1 = m\<lparr>state := stateDeleting, updateIndex := 0, successCount := 0,
                     failedBranches := [],
                     selectedForActionCount := selectedCount (branches m),
                     commandLog := deleteCommandLog (branches m)\<rparr>
         in Inr (log, m1, DeleteNextBranch m1))
      else if key = ''n'' \<or> key = ''N'' \<or> key = ''q'' \<or> key = ''ctrl+c'' \<or> key = ''esc'' then
        Inr (log, m\<lparr>state := stateBrowsing, deleteMode := False,
               message := ''Deletion cancelled'', branches := deselectAll (branches m)\<rparr>, CmdNil)
      else Inr (log, m, CmdNil))"

definition handleConfirmingStashKeys :: "Env \<Rightarrow> argv list \<Rightarrow> Model \<Rightarrow> string \<Rightarrow> Step" where
  "handleConfirmingStashKeys env log m key =
     (if key = ''y'' \<or> key = ''Y'' then
        (case StashChanges env log of
           (log1, Some e) \<Rightarrow> Inr (log1, m\<lparr>state := stateError, error := e\<rparr>, CmdNil)
         | (log1, None) \<Rightarrow>
           (case config m of
              None \<Rightarrow> Inl log1
            | Some cfg \<Rightarrow>
              (let m1 = m\<lparr>didStash := True, commandLog := updateCommandLog cfg (branches m)\<rparr>;
                   n = selectedCount (branches m)
               in if n = 0 then
                    Inr (log1, m1\<lparr>message := ''No branches selected'', state := stateBrowsing\<rparr>,
                         CmdNil)
                  else if manualMode env then
                    Inr (log1, m1\<lparr>state := stateConfirming,
                           message := ''Ready to update '' @ Itoa n
                             @ '' branch(es). Press 'y' to continue, 'n' to cancel.''\<rparr>,
                         CmdNil)
                  else
                    (let m2 = m1\<lparr>state := stateUpdating, updateIndex := 0, successCount := 0,
                                 failedBranches := [], selectedForActionCount := n\<rparr>
                     in Inr (log1, m2, UpdateNextBranch m2)))))
      else if key = ''n'' \<or> key = ''N'' \<or> key = ''q'' \<or> key = ''ctrl+c'' \<or> key = ''esc'' then
        Inr (log, m\<lparr>state := stateBrowsing, message := ''Update cancelled.''\<rparr>, CmdNil)
      else Inr (log, m, CmdNil))"

definition handleTaggingKeys :: "Env \<Rightarrow> argv list \<Rightarrow> Model \<Rightarrow> string \<Rightarrow> Step" where
  "handleTaggingKeys env log m key =
     (if key = ''enter'' then
        (let (log1, bs) =
               (if cursor m < length (branches m) then
                  (let branch = branches m ! cursor m in
                   if tagInput m \<noteq> [] then
                     (fst (SetBranchTag env log (Name branch) (tagInput m)),
                      (branches m)[cursor m := branch\<lparr>Description := tagInput m\<rparr>])
                   else
                     (fst (RemoveBranchTag env log (Name branch)),
                      (branches m)[cursor m := branch\<lparr>Description := []\<rparr>]))
                else (log, branches m))
         in Inr (log1, m\<lparr>branches := bs, state := stateBrowsing, tagInput := []\<rparr>, CmdNil))
      else if key = ''esc'' \<or> key = ''ctrl+c'' then
        Inr (log, m\<lparr>state := stateBrowsing, tagInput := []\<rparr>, CmdNil)
      else if key = ''backspace'' then
        (if length (tagInput m) > 0 then Inr (log, m\<lparr>tagInput := butlast (tagInput m)\<rparr>, CmdNil)
         else Inr (log, m, CmdNil))
      else if length key = 1 then Inr (log, m\<lparr>tagInput := tagInput m @ key\<rparr>, CmdNil)
      else Inr (log, m, CmdNil))"

definition handleHelpKeys :: "Env \<Rightarrow> argv list \<Rightarrow> Model \<Rightarrow> string \<Rightarrow> Step" where
  "handleHelpKeys env log m key =
     (if key = ''h'' \<or> key = ''q'' \<or> key = ''esc'' then Inr (log, m\<lparr>state := stateBrowsing\<rparr>, CmdNil)
      else Inr (log, m, CmdNil))"

definition handleKeyPress :: "Env \<Rightarrow> argv list \<Rightarrow> Model \<Rightarrow> string \<Rightarrow> Step" where
  "handleKeyPress env log m key =
     (case state m of
        stateBrowsing \<Rightarrow> handleBrowsingKeys env log m key
      | stateConfirming \<Rightarrow> handleConfirmingKeys env log m key
      | stateConfirmingDelete \<Rightarrow> handleConfirmingDeleteKeys env log m key
      | stateConfirmingStash \<Rightarrow> handleConfirmingStashKeys env log m key
      | stateTagging \<Rightarrow> handleTaggingKeys env log m key
      | stateHelp \<Rightarrow> handleHelpKeys env log m key
      | stateLoading \<Rightarrow> Inr (log, m, CmdNil)
      | stateUpdating \<Rightarrow> Inr (log, m, CmdNil)
      | stateDeleting \<Rightarrow> Inr (log, m, CmdNil)
      | _ \<Rightarrow>
        (if key = '' '' \<or> key = ''enter'' then
           Inr (log, m\<lparr>state := stateBrowsing, message := [], successCount := 0,
                  failedBranches := [], updateIndex := 0, selectedForActionCount := 0,
                  commandLog := [], didStash := False, deleteMode := False,
                  branches := deselectAll (branches m)\<rparr>, CmdNil)
         else if key = ''q'' \<or> key = ''ctrl+c'' then
           (let log1 = (if didStash m then fst (StashPop env log) else log)
            in Inr (log1, m\<lparr>deleteMode := False\<rparr>, Quit))
         else Inr (log, m, CmdNil)))"

subsection \<open>Update\<close>

text \<open>
  The completion of one branch, shared by the \<open>branchUpdatedMsg\<close> and \<open>branchDeletedMsg\<close>
  cases of \<open>Update\<close>, which differ in the status they set and the command they return.
\<close>

definition branchDone ::
  "Env \<Rightarrow> argv list \<Rightarrow> Model \<Rightarrow> string \<Rightarrow> bool \<Rightarrow> string \<Rightarrow> string \<Rightarrow> (Model \<Rightarrow> Cmd) \<Rightarrow> Step" where
  "branchDone env log m branch success err st next =
     (let m1 = (if success then
                  m\<lparr>successCount := successCount m + 1,
                    branches := markStatus branch st (branches m)\<rparr>
                else m\<lparr>failedBranches := failedBranches m @ [branch @ '' ('' @ err @ '')'']\<rparr>);
          m2 = m1\<lparr>updateIndex := updateIndex m1 + 1\<rparr>
      in if updateIndex m2 \<ge> selectedForActionCount m2 then
           (if didStash m2 then
              Inr (fst (StashPop env log), m2\<lparr>state := stateDone, didStash := False\<rparr>, CmdNil)
            else Inr (log, m2\<lparr>state := stateDone\<rparr>, CmdNil))
         else Inr (log, m2, next m2))"

definition Update :: "Env \<Rightarrow> argv list \<Rightarrow> Model \<Rightarrow> Msg \<Rightarrow> Step" where
  "Update env log m msg =
     (case msg of
        KeyMsg key \<Rightarrow> handleKeyPress env log m key
      | loadedMsg bs cfg current \<Rightarrow>
          Inr (log, m\<lparr>branches := bs, config := Some cfg, currentBranch := current,
                 originalBranch := current, state := stateBrowsing, message := []\<rparr>, CmdNil)
      | errorMsg e \<Rightarrow>
          (if didStash m then
             Inr (fst (StashPop env log), m\<lparr>state := stateError, error := e, didStash := False\<rparr>,
                  CmdNil)
           else Inr (log, m\<lparr>state := stateError, error := e\<rparr>, CmdNil))
      | branchUpdatedMsg branch success err \<Rightarrow>
          branchDone env log m branch success err ''updated'' UpdateNextBranch
      | tickMsg \<Rightarrow>
          (if state m = stateLoading then
             (if length (loadingDots m) < 3
              then Inr (log, m\<lparr>loadingDots := loadingDots m @ ''.''\<rparr>, Tick)
              else Inr (log, m\<lparr>loadingDots := []\<rparr>, Tick))
           else Inr (log, m, CmdNil))
      | branchDeletedMsg branch success err \<Rightarrow>
          branchDone env log m branch success err ''deleted'' DeleteNextBranch
      | otherMsg \<Rightarrow> Inr (log, m, CmdNil))"

subsection \<open>The tagging view\<close>

text \<open>
  The styles declared at the top of ui.go. Rendering a string in a style is done by the
  lipgloss library; \<open>viewTagging\<close> takes the renderer as a parameter. The title starts with
  the UTF-8 bytes of U+1F33F, the input ends with those of the block cursor U+2588.
\<close>

datatype Style =
    titleStyle | selectedStyle | normalStyle | dimStyle | successStyle | errorStyle
  | warningStyle | infoStyle | boxStyle

definition viewTagging :: "(Style \<Rightarrow> string \<Rightarrow> string) \<Rightarrow> Model \<Rightarrow> string" where
  "viewTagging Render m =
     Render titleStyle ([CHR 0xF0, CHR 0x9F, CHR 0x8C, CHR 0xBF] @ '' GitSync - Tag Branch'')
     @ [CHR 0x0A, CHR 0x0A]
     @ (if cursor m < length (branches m) then
          (let branch = branches m ! cursor m in
           Render infoStyle (''  Branch: '' @ Name branch)
           @ [CHR 0x0A, CHR 0x0A]
           @ ''  Description: ''
           @ Render selectedStyle (tagInput m @ [CHR 0xE2, CHR 0x96, CHR 0x88])
           @ [CHR 0x0A, CHR 0x0A]
           @ Render dimStyle ''  enter: save  esc: cancel'')
        else [])"

subsection \<open>The runtime between two key presses\<close>

text \<open>
  The Bubble Tea runtime runs the command returned by \<open>Update\<close> and passes the message it
  produces to \<open>Update\<close>, until \<open>Update\<close> returns no branch command. While a branch command
  runs the session is in \<open>stateUpdating\<close> or \<open>stateDeleting\<close>, where \<open>handleKeyPress\<close>
  changes nothing, so the model passed to \<open>Update\<close> is the one the previous \<open>Update\<close>
  returned. The result is the list of git commands run and the model at rest.
\<close>

function drive :: "Env \<Rightarrow> argv list \<Rightarrow> Model \<Rightarrow> Cmd \<Rightarrow> argv list + (argv list \<times> Model)" where
  "drive env log m (UpdateNextBranch mc) =
     (case updateNextBranch env log mc of
        Inl l \<Rightarrow> Inl l
      | Inr (log1, msg) \<Rightarrow>
        (case Update env log1 m msg of
           Inl l \<Rightarrow> Inl l
         | Inr (log2, m2, cmd2) \<Rightarrow> drive env log2 m2 cmd2))"
| "drive env log m (DeleteNextBranch mc) =
     (case deleteNextBranch env log mc of
        Inl l \<Rightarrow> Inl l
      | Inr (log1, msg) \<Rightarrow>
        (case Update env log1 m msg of
           Inl l \<Rightarrow> Inl l
         | Inr (log2, m2, cmd2) \<Rightarrow> drive env log2 m2 cmd2))"
| "drive env log m CmdNil = Inr (log, m)"
| "drive env log m Quit = Inr (log, m)"
| "drive env log m Tick = Inr (log, m)"
  by pat_completeness auto

termination
proof (relation "measure (\<lambda>(env, log, m, cmd).
          case cmd of UpdateNextBranch mc \<Rightarrow> Suc (selectedForActionCount m - updateIndex m)
                    | DeleteNextBranch mc \<Rightarrow> Suc (selectedForActionCount m - updateIndex m)
                    | _ \<Rightarrow> 0)")
  show "wf (measure (\<lambda>(env, log, m, cmd).
          case cmd of UpdateNextBranch mc \<Rightarrow> Suc (selectedForActionCount m - updateIndex m)
                    | DeleteNextBranch mc \<Rightarrow> Suc (selectedForActionCount m - updateIndex m)
                    | _ \<Rightarrow> 0))" by simp
next
  fix env log m mc x2 log1 msg x2a log2 y m2 cmd2
  assume a: "updateNextBranch env log mc = Inr x2" "(log1, msg) = x2"
     "Update env log1 m msg = Inr x2a" "(log2, y) = x2a" "(m2, cmd2) = y"
  from a(1,2) obtain b s e where msg: "msg = branchUpdatedMsg b s e"
    by (auto simp: updateNextBranch_def Let_def split: option.splits prod.splits if_splits)
  from a(3,4,5) msg have
    "cmd2 = CmdNil \<or> (cmd2 = UpdateNextBranch m2 \<and> updateIndex m2 = updateIndex m + 1
        \<and> selectedForActionCount m2 = selectedForActionCount m
        \<and> updateIndex m + 1 < selectedForActionCount m)"
    by (auto simp: Update_def branchDone_def Let_def split: if_splits)
  then show "((env, log2, m2, cmd2), env, log, m, UpdateNextBranch mc) \<in> measure (\<lambda>(env, log, m, cmd).
          case cmd of UpdateNextBranch mc \<Rightarrow> Suc (selectedForActionCount m - updateIndex m)
                    | DeleteNextBranch mc \<Rightarrow> Suc (selectedForActionCount m - updateIndex m)
                    | _ \<Rightarrow> 0)"
    by auto
next
  fix env log m mc x2 log1 msg x2a log2 y m2 cmd2
  assume a: "deleteNextBranch env log mc = Inr x2" "(log1, msg) = x2"
     "Update env log1 m msg = Inr x2a" "(log2, y) = x2a" "(m2, cmd2) = y"
  from a(1,2) obtain b s e where msg: "msg = branchDeletedMsg b s e"
    by (auto simp: deleteNextBranch_def Let_def split: option.splits prod.splits if_splits)
  from a(3,4,5) msg have
    "cmd2 = CmdNil \<or> (cmd2 = DeleteNextBranch m2 \<and> updateIndex m2 = updateIndex m + 1
        \<and> selectedForActionCount m2 = selectedForActionCount m
        \<and> updateIndex m + 1 < selectedForActionCount m)"
    by (auto simp: Update_def branchDone_def Let_def split: if_splits)
  then show "((env, log2, m2, cmd2), env, log, m, DeleteNextBranch mc) \<in> measure (\<lambda>(env, log, m, cmd).
          case cmd of UpdateNextBranch mc \<Rightarrow> Suc (selectedForActionCount m - updateIndex m)
                    | DeleteNextBranch mc \<Rightarrow> Suc (selectedForActionCount m - updateIndex m)
                    | _ \<Rightarrow> 0)"
    by auto
qed


text \<open>The git commands of a run, whether it ended at rest or in a panic.\<close>

definition logOf :: "argv list + (argv list \<times> Model) \<Rightarrow> argv list" where
  "logOf r = (case r of Inl l \<Rightarrow> l | Inr (l, m) \<Rightarrow> l)"

text \<open>The queue: the selected branches, in the order of \<open>m.branches\<close>.\<close>

definition queue :: "Model \<Rightarrow> Branch list" where
  "queue m = filter Selected (branches m)"

text \<open>
  A user pressing keys, each after the runtime has come to rest; the program ends at the first
  \<open>tea.Quit\<close>.
\<close>

fun session :: "Env \<Rightarrow> argv list \<Rightarrow> Model \<Rightarrow> string list \<Rightarrow> Step" where
  "session env log m [] = Inr (log, m, CmdNil)"
| "session env log m (key # keys) =
     (case Update env log m (KeyMsg key) of
        Inl l \<Rightarrow> Inl l
      | Inr (log1, m1, cmd) \<Rightarrow>
          if cmd = Quit then Inr (log1, m1, Quit)
          else (case drive env log1 m1 cmd of
                  Inl l \<Rightarrow> Inl l
                | Inr (log2, m2) \<Rightarrow> session env log2 m2 keys))"

text \<open>
  The git commands of the base-branch step, in the order \<open>updateBaseFirst\<close> runs them, and
  the commands \<open>RebaseBranch\<close> runs when the rebase of a branch fails.
\<close>

definition guardCmds :: "Config \<Rightarrow> argv list" where
  "guardCmds cfg =
     [[''fetch'', UpstreamRemote cfg, BaseBranch cfg],
      [''rev-list'', BaseBranch cfg, ''^'' @ UpstreamRemote cfg @ ''/'' @ BaseBranch cfg],
      [''checkout'', BaseBranch cfg],
      [''reset'', ''--hard'', UpstreamRemote cfg @ ''/'' @ BaseBranch cfg],
      [''push'', ''origin'', BaseBranch cfg, ''--force-with-lease'']]"

definition conflictCmds :: "Config \<Rightarrow> string \<Rightarrow> argv list" where
  "conflictCmds cfg name =
     [[''checkout'', name], [''rebase'', BaseBranch cfg], [''rebase'', ''--abort'']]"

section \<open>Concrete environments\<close>

text \<open>
  Scripted environments for the examples below: the outcome of a git command depends on its
  arguments only; \<open>ToLower\<close> lowers the ASCII letters, \<open>Errorf0\<close> returns a format without
  verbs as it is.
\<close>

definition succeed :: "string \<Rightarrow> CmdResult" where
  "succeed out = \<lparr>cmd_out = out, cmd_err = None\<rparr>"

definition exitStatus1 :: "string \<Rightarrow> CmdResult" where
  "exitStatus1 out = \<lparr>cmd_out = out, cmd_err = Some ''exit status 1''\<rparr>"

definition asciiLower :: "string \<Rightarrow> string" where
  "asciiLower s =
     map (\<lambda>c. case map_of (zip ''ABCDEFGHIJKLMNOPQRSTUVWXYZ'' ''abcdefghijklmnopqrstuvwxyz'') c of
                 None \<Rightarrow> c | Some l \<Rightarrow> l) s"

definition scripted :: "(argv \<Rightarrow> CmdResult) \<Rightarrow> bool \<Rightarrow> Env" where
  "scripted f manual =
     \<lparr>git = (\<lambda>log args. f args), manualMode = manual, ToLower = asciiLower,
      Sscanf_d = (\<lambda>s. None), Errorf0 = (\<lambda>s. s)\<rparr>"

definition mkBranch :: "string \<Rightarrow> string \<Rightarrow> bool \<Rightarrow> Branch" where
  "mkBranch n d sel =
     \<lparr>Name = n, Description = d, Behind = 0, Ahead = 0, LastCommit = [], Selected = sel,
      Status = ''ok''\<rparr>"

definition mainConfig :: Config where
  "mainConfig = \<lparr>BaseBranch = ''main'', UpstreamRemote = ''upstream'',
                 OriginRemote = ''origin'', ExcludePatterns = []\<rparr>"

text \<open>A repository whose local \<open>main\<close> has one commit that \<open>upstream/main\<close> lacks.\<close>

definition divergedEnv :: Env where
  "divergedEnv =
     scripted (\<lambda>args. if take 1 args = [''rev-list'']
                       then succeed (''4f2a9c1d'' @ [CHR 0x0A]) else succeed []) False"

text \<open>A repository with the local branches \<open>main\<close>, \<open>feature-x\<close> and \<open>release/1.0\<close>.\<close>

definition threeBranchEnv :: Env where
  "threeBranchEnv =
     scripted (\<lambda>args. if take 1 args = [''branch'']
                       then succeed (''main'' @ [CHR 0x0A] @ ''feature-x'' @ [CHR 0x0A]
                                     @ ''release/1.0'' @ [CHR 0x0A])
                       else succeed []) False"

text \<open>A loaded session at rest in the branch list, base branch \<open>main\<close>.\<close>

definition browsingModel :: "Branch list \<Rightarrow> Model" where
  "browsingModel bs =
     InitialModel\<lparr>state := stateBrowsing, config := Some mainConfig, branches := bs,
                  message := [], currentBranch := ''main'', originalBranch := ''main''\<rparr>"

text \<open>A working tree with one modified tracked file.\<close>

definition dirtyEnv :: Env where
  "dirtyEnv =
     scripted (\<lambda>args. if take 1 args = [''status'']
                       then succeed ('' M ui.go'' @ [CHR 0x0A]) else succeed []) False"

text \<open>The summary screen after a run that updated the one selected branch.\<close>

definition doneModel :: Model where
  "doneModel =
     (browsingModel [(mkBranch ''feature-a'' [] True)\<lparr>Status := ''updated''\<rparr>])
       \<lparr>state := stateDone, updateIndex := 1, successCount := 1, selectedForActionCount := 1\<rparr>"

text \<open>Every command succeeds and prints nothing.\<close>

definition quietEnv :: Env where
  "quietEnv = scripted (\<lambda>args. succeed []) False"

text \<open>Two tagged branches, the list filtered by the query \<open>bet\<close>, the cursor on top.\<close>

definition filteredModel :: Model where
  "filteredModel =
     (browsingModel [mkBranch ''alpha'' ''first'' False, mkBranch ''beta'' ''second'' False])
       \<lparr>searchQuery := ''bet''\<rparr>"

text \<open>The tag editor over the filtered list, opened on \<open>beta\<close> and one key typed.\<close>

definition taggingModel :: Model where
  "taggingModel = filteredModel\<lparr>state := stateTagging, tagInput := ''second!''\<rparr>"

text \<open>The same two branches without a filter, the cursor on the second one.\<close>

definition unfilteredModel :: Model where
  "unfilteredModel =
     (browsingModel [mkBranch ''alpha'' ''first'' False, mkBranch ''beta'' ''second'' False])
       \<lparr>cursor := 1\<rparr>"

text \<open>A renderer that adds no styling.\<close>

definition plainRender :: "Style \<Rightarrow> string \<Rightarrow> string" where
  "plainRender st text = text"

text \<open>The fetch of the base branch fails; every other command succeeds.\<close>

definition fetchFailEnv :: Env where
  "fetchFailEnv =
     scripted (\<lambda>args. if take 1 args = [''fetch''] then exitStatus1 [] else succeed []) False"

text \<open>The rebase fails whenever the branch checked out last is \<open>feature-b\<close>.\<close>

definition conflictEnv :: Env where
  "conflictEnv =
     \<lparr>git = (\<lambda>log args. if args = [''rebase'', ''main''] \<and> log \<noteq> []
                              \<and> last log = [''checkout'', ''feature-b'']
                           then exitStatus1 [] else succeed []),
      manualMode = False, ToLower = asciiLower, Sscanf_d = (\<lambda>s. None), Errorf0 = (\<lambda>s. s)\<rparr>"

text \<open>\<open>git branch -d feature-a\<close> is refused: the branch is not fully merged.\<close>

definition deleteFailEnv :: Env where
  "deleteFailEnv =
     scripted (\<lambda>args. if args = [''branch'', ''-d'', ''feature-a'']
                       then exitStatus1 (''error: not fully merged'' @ [CHR 0x0A])
                       else succeed []) False"

text \<open>A session in the middle of a run over the selected branches, at queue position \<open>k\<close>.\<close>

definition runningModel :: "state \<Rightarrow> Branch list \<Rightarrow> nat \<Rightarrow> Model" where
  "runningModel st bs k =
     (browsingModel bs)\<lparr>state := st, updateIndex := k,
                         selectedForActionCount := selectedCount bs\<rparr>"

section \<open>Properties of the library functions\<close>

lemma Contains_sublist: "Contains s p \<longleftrightarrow> sublist p s"
  by (induction s) (auto simp: sublist_Cons_right)

lemma Contains_substring: "Contains s p \<longleftrightarrow> (\<exists>u v. s = u @ p @ v)"
  by (simp add: Contains_sublist sublist_def)

lemma matchesAny_iff: "matchesAny name ps \<longleftrightarrow> (\<exists>p \<in> set ps. Contains name p)"
  by (induction ps) auto

section \<open>The branch collector\<close>

lemma GetBranchInfo_result:
  "\<exists>log' b. GetBranchInfo env log name base = (log', Inr b) \<and> Name b = name"
  by (auto simp: GetBranchInfo_def Let_def split: prod.splits option.splits)

lemma collectBranches_names:
  "map Name (snd (collectBranches env log base pats acc names))
     = map Name acc @ filter (\<lambda>n. n \<noteq> base \<and> \<not> matchesAny n pats) names"
proof (induction names arbitrary: log acc)
  case Nil
  then show ?case by simp
next
  case (Cons n ns)
  obtain log' b where gi: "GetBranchInfo env log n base = (log', Inr b)" "Name b = n"
    using GetBranchInfo_result by blast
  show ?case using Cons.IH gi by simp
qed

lemma GetBranchesWithInfo_names:
  assumes "GetAllBranches env log = (log1, Inr names)"
  shows "\<exists>log2 bs. GetBranchesWithInfo env log base pats = (log2, Inr bs)
           \<and> map Name bs = filter (\<lambda>n. n \<noteq> base \<and> \<not> matchesAny n pats) names"
proof -
  obtain log2 bs where c: "collectBranches env log1 base pats [] names = (log2, bs)"
    by (cases "collectBranches env log1 base pats [] names") auto
  have "map Name bs = filter (\<lambda>n. n \<noteq> base \<and> \<not> matchesAny n pats) names"
    using collectBranches_names [of env log1 base pats "[]" names] c by simp
  then show ?thesis using assms c by (simp add: GetBranchesWithInfo_def)
qed

lemma GetBranchesWithInfo_Inr:
  assumes "GetBranchesWithInfo env log base pats = (log2, Inr bs)"
  shows "\<exists>log1 names. GetAllBranches env log = (log1, Inr names)"
  using assms by (auto simp: GetBranchesWithInfo_def split: prod.splits sum.splits)

text \<open>
  C5. Whatever the base branch, the exclude patterns and the local branches git lists: a
  branch in the list returned by \<open>GetBranchesWithInfo\<close> is not the base branch, and no exclude
  pattern occurs in its name as a substring. Every collected name is one of the listed names.
\<close>

theorem collector_excludes_base_and_patterns:
  assumes "GetBranchesWithInfo env log baseBranch excludePatterns = (log', Inr bs)"
      and "b \<in> set bs"
  shows "Name b \<noteq> baseBranch
       \<and> (\<forall>pattern \<in> set excludePatterns. \<not> (\<exists>u v. Name b = u @ pattern @ v))
       \<and> (\<exists>log1 names. GetAllBranches env log = (log1, Inr names) \<and> Name b \<in> set names)"
proof -
  obtain log1 names where g: "GetAllBranches env log = (log1, Inr names)"
    using GetBranchesWithInfo_Inr [OF assms(1)] by blast
  from GetBranchesWithInfo_names [OF g, of baseBranch excludePatterns] assms(1)
  have "map Name bs = filter (\<lambda>n. n \<noteq> baseBranch \<and> \<not> matchesAny n excludePatterns) names"
    by simp
  moreover have "Name b \<in> set (map Name bs)" using assms(2) by simp
  ultimately have "Name b \<noteq> baseBranch \<and> \<not> matchesAny (Name b) excludePatterns
      \<and> Name b \<in> set names" by simp
  then show ?thesis using g by (simp add: matchesAny_iff Contains_substring)
qed

theorem collector_excludes_base_and_patterns_witness:
  "snd (GetBranchesWithInfo threeBranchEnv [] ''main'' [''release/''])
     = Inr [mkBranch ''feature-x'' [] False]
   \<and> Name (mkBranch ''feature-x'' [] False) \<noteq> ''main''
   \<and> \<not> (\<exists>u v. Name (mkBranch ''feature-x'' [] False) = u @ ''release/'' @ v)"
proof -
  let ?r = "GetBranchesWithInfo threeBranchEnv [] ''main'' [''release/'']"
  have s: "snd ?r = Inr [mkBranch ''feature-x'' [] False]" by code_simp
  then have h: "?r = (fst ?r, Inr [mkBranch ''feature-x'' [] False])"
    by (metis prod.collapse)
  have i: "mkBranch ''feature-x'' [] False \<in> set [mkBranch ''feature-x'' [] False]" by simp
  show ?thesis using collector_excludes_base_and_patterns [OF h i] s by simp
qed

text \<open>
  C8. \<open>GetBranchInfo\<close> returns a branch and a nil error for every input, so the \<open>continue\<close>
  after it in \<open>GetBranchesWithInfo\<close> is never taken: the names of the collected branches are
  exactly the listed names that are not the base branch and contain no exclude pattern, in
  the order git lists them.
\<close>

theorem GetBranchInfo_never_fails_all_collected:
  "(\<exists>log' b. GetBranchInfo env log name baseBranch = (log', Inr b) \<and> Name b = name)
   \<and> (GetAllBranches env log = (log1, Inr names) \<longrightarrow>
        (\<exists>log2 bs. GetBranchesWithInfo env log baseBranch excludePatterns = (log2, Inr bs)
           \<and> map Name bs
               = filter (\<lambda>n. n \<noteq> baseBranch
                            \<and> \<not> (\<exists>pattern \<in> set excludePatterns. \<exists>u v. n = u @ pattern @ v))
                        names))"
proof -
  have eq: "(\<lambda>n. n \<noteq> baseBranch \<and> \<not> matchesAny n excludePatterns)
      = (\<lambda>n. n \<noteq> baseBranch \<and> \<not> (\<exists>pattern \<in> set excludePatterns. \<exists>u v. n = u @ pattern @ v))"
    by (simp add: matchesAny_iff Contains_substring)
  show ?thesis
    using GetBranchInfo_result [of env log name baseBranch]
      GetBranchesWithInfo_names [of env log log1 names baseBranch excludePatterns]
    unfolding eq by blast
qed

theorem GetBranchInfo_never_fails_all_collected_witness:
  "snd (GetAllBranches threeBranchEnv []) = Inr [''main'', ''feature-x'', ''release/1.0'']
   \<and> snd (GetBranchInfo threeBranchEnv [] ''feature-x'' ''main'')
       = Inr (mkBranch ''feature-x'' [] False)
   \<and> snd (GetBranchesWithInfo threeBranchEnv [] ''main'' [])
       = Inr [mkBranch ''feature-x'' [] False, mkBranch ''release/1.0'' [] False]"
proof -
  let ?g = "GetAllBranches threeBranchEnv []"
  have g: "snd ?g = Inr [''main'', ''feature-x'', ''release/1.0'']" by code_simp
  then have h: "?g = (fst ?g, Inr [''main'', ''feature-x'', ''release/1.0''])"
    by (metis prod.collapse)
  have a: "snd (GetBranchInfo threeBranchEnv [] ''feature-x'' ''main'')
       = Inr (mkBranch ''feature-x'' [] False)" by code_simp
  have b: "snd (GetBranchesWithInfo threeBranchEnv [] ''main'' [])
       = Inr [mkBranch ''feature-x'' [] False, mkBranch ''release/1.0'' [] False]" by code_simp
  have k: "\<exists>log2 bs. GetBranchesWithInfo threeBranchEnv [] ''main'' [] = (log2, Inr bs)
       \<and> map Name bs = [''feature-x'', ''release/1.0'']"
    using GetBranchInfo_never_fails_all_collected
      [of threeBranchEnv "[]" "''feature-x''" "''main''" "fst ?g"
          "[''main'', ''feature-x'', ''release/1.0'']" "[]"] h
    by simp
  from k g a b show ?thesis by blast
qed

section \<open>The divergence guard\<close>

lemma diverged_msg: "Contains (x @ '' has diverged from '' @ y) ''has diverged''"
proof -
  have "x @ '' has diverged from '' @ y = (x @ '' '') @ ''has diverged'' @ ('' from '' @ y)"
    by simp
  then show ?thesis unfolding Contains_substring by blast
qed

text \<open>
  C2. If \<open>git rev-list b ^r/b\<close> succeeds and prints at least one commit (the local base
  branch has a commit that \<open>r/b\<close> lacks), \<open>UpdateBaseBranch\<close> returns an error whose message
  contains ``has diverged'', and the divergence query is the only git command it runs: no
  checkout, no hard reset and no push of the base branch.
\<close>

theorem UpdateBaseBranch_diverged_no_mutation:
  assumes "cmd_err (git env log [''rev-list'', b, ''^'' @ r @ ''/'' @ b]) = None"
      and "TrimSpace (cmd_out (git env log [''rev-list'', b, ''^'' @ r @ ''/'' @ b])) \<noteq> []"
  shows "\<exists>e ext. UpdateBaseBranch env log b r = (log @ ext, Some e)
           \<and> Contains e ''has diverged''
           \<and> ext = [[''rev-list'', b, ''^'' @ r @ ''/'' @ b]]
           \<and> [''checkout'', b] \<notin> set ext
           \<and> [''reset'', ''--hard'', r @ ''/'' @ b] \<notin> set ext
           \<and> [''push'', ''origin'', b, ''--force-with-lease''] \<notin> set ext"
  using assms
    diverged_msg [of "''local base branch '' @ [CHR 0x27] @ b @ [CHR 0x27]"
                     "[CHR 0x27] @ r @ ''/'' @ b @ [CHR 0x27] @ ''. Please resolve manually''"]
  by (simp add: UpdateBaseBranch_def exec_def)

theorem UpdateBaseBranch_diverged_no_mutation_witness:
  "cmd_err (git divergedEnv [] [''rev-list'', ''main'', ''^'' @ ''upstream'' @ ''/'' @ ''main'']) = None
   \<and> TrimSpace (cmd_out (git divergedEnv [] [''rev-list'', ''main'', ''^'' @ ''upstream'' @ ''/'' @ ''main'']))
       = ''4f2a9c1d''
   \<and> fst (UpdateBaseBranch divergedEnv [] ''main'' ''upstream'')
       = [[''rev-list'', ''main'', ''^upstream/main'']]
   \<and> Contains (the (snd (UpdateBaseBranch divergedEnv [] ''main'' ''upstream''))) ''has diverged''"
proof -
  have h1: "cmd_err (git divergedEnv [] [''rev-list'', ''main'', ''^'' @ ''upstream'' @ ''/'' @ ''main'']) = None"
    by code_simp
  have t: "TrimSpace (cmd_out (git divergedEnv [] [''rev-list'', ''main'', ''^'' @ ''upstream'' @ ''/'' @ ''main'']))
       = ''4f2a9c1d''"
    by code_simp
  then have h2: "TrimSpace (cmd_out (git divergedEnv [] [''rev-list'', ''main'', ''^'' @ ''upstream'' @ ''/'' @ ''main''])) \<noteq> []"
    by simp
  show ?thesis
    using UpdateBaseBranch_diverged_no_mutation [OF h1 h2] h1 t by auto
qed

section \<open>The update and delete drivers\<close>

lemma findTarget_filter:
  "findTarget bs c idx =
     (if c \<le> idx \<and> idx - c < length (filter Selected bs)
      then Some (filter Selected bs ! (idx - c)) else None)"
proof (induction bs arbitrary: c)
  case Nil
  then show ?case by simp
next
  case (Cons b bs)
  show ?case
  proof (cases "Selected b")
    case False
    then show ?thesis using Cons.IH by simp
  next
    case True
    show ?thesis
    proof (cases "c = idx")
      case True
      with \<open>Selected b\<close> show ?thesis by simp
    next
      case False
      have "idx - c = Suc (idx - (c + 1))" if "c < idx" using that by simp
      with False \<open>Selected b\<close> show ?thesis
        using Cons.IH [of "c + 1"] by (auto simp: less_Suc_eq_le)
    qed
  qed
qed

lemma findTarget_queue:
  "findTarget (branches m) 0 k = (if k < length (queue m) then Some (queue m ! k) else None)"
  by (simp add: findTarget_filter queue_def)

lemma markStatus_queue_names:
  "map Name (filter Selected (markStatus n st bs)) = map Name (filter Selected bs)"
  by (induction bs) auto


lemma updateBaseFirst_ext: "\<exists>ext r. updateBaseFirst env log cfg = (log @ ext, r)"
  by (auto simp: updateBaseFirst_def FetchUpstream_def UpdateBaseBranch_def exec_def Let_def
      split: option.splits prod.splits)


lemma RebaseBranch_ext:
  "\<exists>ext r. RebaseBranch env log n base = (log @ [''checkout'', n] # ext, r)"
  by (simp add: RebaseBranch_def exec_def Let_def split: option.splits prod.splits)

lemma PushBranch_ext: "\<exists>ext r. PushBranch env log n = (log @ ext, r)"
  by (simp add: PushBranch_def exec_def)

lemma updateNextBranch_run:
  assumes "config m = Some cfg" and "updateIndex m = k" and "k < length (queue m)"
  shows "\<exists>ext s e. updateNextBranch env log m
            = Inr (log @ ext, branchUpdatedMsg (Name (queue m ! k)) s e)
          \<and> (0 < k \<longrightarrow> [''checkout'', Name (queue m ! k)] \<in> set ext)"
proof -
  let ?t = "queue m ! k"
  have ft: "findTarget (branches m) 0 (updateIndex m) = Some ?t"
    using assms by (simp add: findTarget_queue)
  obtain e0 g where g: "(if updateIndex m = 0 then updateBaseFirst env log cfg else (log, None))
       = (log @ e0, g)" and g0: "0 < k \<longrightarrow> e0 = [] \<and> g = None"
    using updateBaseFirst_ext [of env log cfg] assms(2) by (cases "k = 0") auto
  show ?thesis
  proof (cases g)
    case (Some e)
    then have "updateNextBranch env log m = Inr (log @ e0, branchUpdatedMsg (Name ?t) False e)"
      using ft g assms(1) by (simp add: updateNextBranch_def)
    moreover have "\<not> 0 < k" using g0 Some by auto
    ultimately show ?thesis by blast
  next
    case None
    obtain e1 r1 where rb:
      "RebaseBranch env (log @ e0) (Name ?t) (BaseBranch cfg) = ((log @ e0) @ [''checkout'', Name ?t] # e1, r1)"
      using RebaseBranch_ext by blast
    show ?thesis
    proof (cases r1)
      case (Some e)
      then have "updateNextBranch env log m
          = Inr (log @ (e0 @ [''checkout'', Name ?t] # e1), branchUpdatedMsg (Name ?t) False e)"
        using ft g assms(1) None rb by (simp add: updateNextBranch_def)
      then show ?thesis by (intro exI conjI) (assumption, simp)
    next
      case rNone: None
      obtain e2 r2 where pb:
        "PushBranch env ((log @ e0) @ [''checkout'', Name ?t] # e1) (Name ?t)
           = (((log @ e0) @ [''checkout'', Name ?t] # e1) @ e2, r2)"
        using PushBranch_ext by blast
      have "\<exists>s e. updateNextBranch env log m
          = Inr (log @ (e0 @ [''checkout'', Name ?t] # e1 @ e2), branchUpdatedMsg (Name ?t) s e)"
        using ft g assms(1) None rb rNone pb by (cases r2) (auto simp: updateNextBranch_def)
      then obtain s e where "updateNextBranch env log m
          = Inr (log @ (e0 @ [''checkout'', Name ?t] # e1 @ e2), branchUpdatedMsg (Name ?t) s e)"
        by blast
      then show ?thesis by (intro exI conjI) (assumption, simp)
    qed
  qed
qed


lemma branchDone_result:
  "\<exists>ext m' c'. branchDone env log m br s e st next = Inr (log @ ext, m', c')
     \<and> updateIndex m' = updateIndex m + 1
     \<and> config m' = config m
     \<and> selectedForActionCount m' = selectedForActionCount m
     \<and> map Name (queue m') = map Name (queue m)
     \<and> (if updateIndex m + 1 < selectedForActionCount m
         then c' = next m' \<and> state m' = state m \<and> ext = []
         else c' = CmdNil \<and> state m' = stateDone)"
  by (cases s; cases "didStash m"; cases "updateIndex m + 1 < selectedForActionCount m")
     (simp_all add: branchDone_def Let_def queue_def markStatus_queue_names StashPop_def exec_def)


lemma drive_update_attempts_all:
  assumes "config m = Some cfg"
      and "selectedForActionCount m = length (queue m)"
      and "updateIndex m < length (queue m)"
  shows "\<exists>ext mF. drive env log m (UpdateNextBranch m) = Inr (log @ ext, mF)
           \<and> state mF = stateDone
           \<and> updateIndex mF = length (queue m)
           \<and> (\<forall>j. updateIndex m \<le> j \<and> 0 < j \<and> j < length (queue m)
                  \<longrightarrow> [''checkout'', map Name (queue m) ! j] \<in> set ext)"
  using assms
proof (induction "length (queue m) - updateIndex m" arbitrary: m log)
  case 0
  then show ?case by simp
next
  case (Suc d)
  let ?k = "updateIndex m"
  let ?n = "length (queue m)"
  obtain e1 s e where run:
    "updateNextBranch env log m = Inr (log @ e1, branchUpdatedMsg (Name (queue m ! ?k)) s e)"
    and co: "0 < ?k \<longrightarrow> [''checkout'', Name (queue m ! ?k)] \<in> set e1"
    using updateNextBranch_run [OF Suc.prems(1) refl Suc.prems(3)] by blast
  obtain e2 m' c' where bd:
    "branchDone env (log @ e1) m (Name (queue m ! ?k)) s e ''updated'' UpdateNextBranch
       = Inr ((log @ e1) @ e2, m', c')"
    and idx: "updateIndex m' = ?k + 1" and cfg: "config m' = config m"
    and cnt: "selectedForActionCount m' = selectedForActionCount m"
    and names: "map Name (queue m') = map Name (queue m)"
    and nxt: "if ?k + 1 < selectedForActionCount m
              then c' = UpdateNextBranch m' \<and> state m' = state m \<and> e2 = []
              else c' = CmdNil \<and> state m' = stateDone"
    using branchDone_result [of env "log @ e1" m "Name (queue m ! ?k)" s e "''updated''" UpdateNextBranch]
    by blast
  have len: "length (queue m') = ?n" using names by (metis length_map)
  have step: "drive env log m (UpdateNextBranch m) = drive env ((log @ e1) @ e2) m' c'"
    using run bd by (simp add: Update_def)
  have here: "0 < ?k \<longrightarrow> [''checkout'', map Name (queue m) ! ?k] \<in> set e1"
    using co Suc.prems(3) by simp
  show ?case
  proof (cases "?k + 1 < ?n")
    case False
    then have c': "c' = CmdNil" and st: "state m' = stateDone" using nxt Suc.prems(2) by auto
    have i': "updateIndex m' = ?n" using idx False Suc.prems(3) by simp
    have only: "\<forall>j. ?k \<le> j \<and> 0 < j \<and> j < ?n \<longrightarrow> j = ?k" using False by auto
    have "drive env log m (UpdateNextBranch m) = Inr (log @ (e1 @ e2), m')"
      using step c' by simp
    moreover have "\<forall>j. ?k \<le> j \<and> 0 < j \<and> j < ?n
        \<longrightarrow> [''checkout'', map Name (queue m) ! j] \<in> set (e1 @ e2)"
      using only here by auto
    ultimately show ?thesis using st i' by blast
  next
    case True
    then have c': "c' = UpdateNextBranch m'" and e2: "e2 = []" using nxt Suc.prems(2) by auto
    have d: "d = length (queue m') - updateIndex m'" using Suc.hyps(2) idx len by simp
    have p1: "config m' = Some cfg" using cfg Suc.prems(1) by simp
    have p2: "selectedForActionCount m' = length (queue m')" using cnt len Suc.prems(2) by simp
    have p3: "updateIndex m' < length (queue m')" using idx len True by simp
    obtain e3 mF where rest:
      "drive env (log @ e1) m' (UpdateNextBranch m') = Inr ((log @ e1) @ e3, mF)"
      "state mF = stateDone" "updateIndex mF = length (queue m')"
      "\<forall>j. updateIndex m' \<le> j \<and> 0 < j \<and> j < length (queue m')
            \<longrightarrow> [''checkout'', map Name (queue m') ! j] \<in> set e3"
      using Suc.hyps(1) [OF d p1 p2 p3, of "log @ e1"] by blast
    have all: "\<forall>j. ?k \<le> j \<and> 0 < j \<and> j < ?n \<longrightarrow> [''checkout'', map Name (queue m) ! j] \<in> set (e1 @ e3)"
    proof (intro allI impI)
      fix j assume j: "?k \<le> j \<and> 0 < j \<and> j < ?n"
      show "[''checkout'', map Name (queue m) ! j] \<in> set (e1 @ e3)"
      proof (cases "j = ?k")
        case True
        then show ?thesis using here j by auto
      next
        case False
        then have "updateIndex m' \<le> j \<and> 0 < j \<and> j < length (queue m')"
          using j idx len by simp
        then have "[''checkout'', map Name (queue m') ! j] \<in> set e3" using rest(4) by blast
        then show ?thesis using names by simp
      qed
    qed
    have "drive env log m (UpdateNextBranch m) = Inr (log @ (e1 @ e3), mF)"
      using step rest(1) c' e2 by simp
    moreover have "updateIndex mF = ?n" using rest(3) len by simp
    ultimately show ?thesis using all rest(2) by blast
  qed
qed


lemma branchDone_failure:
  "\<exists>ext m1 c1. branchDone env log m br False e st next = Inr (log @ ext, m1, c1)
     \<and> failedBranches m1 = failedBranches m @ [br @ '' ('' @ e @ '')'']
     \<and> successCount m1 = successCount m \<and> branches m1 = branches m
     \<and> config m1 = config m
     \<and> selectedForActionCount m1 = selectedForActionCount m
     \<and> updateIndex m1 = updateIndex m + 1
     \<and> (if updateIndex m + 1 < selectedForActionCount m
         then c1 = next m1 \<and> state m1 = state m \<and> ext = []
         else c1 = CmdNil \<and> state m1 = stateDone
              \<and> ext = (if didStash m then [[''stash'', ''pop'']] else []))"
  by (cases "didStash m"; cases "updateIndex m + 1 < selectedForActionCount m")
     (simp_all add: branchDone_def Let_def StashPop_def exec_def)

lemma updateBaseFirst_cmds:
  "\<exists>ext r. updateBaseFirst env log cfg = (log @ ext, r) \<and> prefix ext (guardCmds cfg)"
  by (auto simp: updateBaseFirst_def FetchUpstream_def UpdateBaseBranch_def exec_def Let_def
        guardCmds_def split: option.splits prod.splits)

lemma conflict_word: "Contains ''rebase conflict'' ''conflict''"
  by code_simp

lemma updateNextBranch_conflict:
  assumes "config m = Some cfg" and "updateIndex m = k" and "0 < k" and "k < length (queue m)"
      and "cmd_err (git env log [''checkout'', Name (queue m ! k)]) = None"
      and "cmd_err (git env (log @ [[''checkout'', Name (queue m ! k)]])
                     [''rebase'', BaseBranch cfg]) = Some e"
  shows "updateNextBranch env log m
           = Inr (log @ conflictCmds cfg (Name (queue m ! k)),
                  branchUpdatedMsg (Name (queue m ! k)) False ''rebase conflict'')"
  using assms
  by (simp add: updateNextBranch_def findTarget_queue RebaseBranch_def exec_def conflictCmds_def)

lemma updateNextBranch_guard_failure:
  assumes "config m = Some cfg" and "updateIndex m = 0" and "0 < length (queue m)"
      and "updateBaseFirst env log cfg = (log1, Some e)"
  shows "updateNextBranch env log m
           = Inr (log1, branchUpdatedMsg (Name (queue m ! 0)) False e)"
  using assms by (simp add: updateNextBranch_def findTarget_queue)

lemma deleteNextBranch_remote_after_local:
  assumes "deleteNextBranch env log m = Inr (log', msg)"
      and "[''push'', ''origin'', ''--delete'', n] \<in> set (drop (length log) log')"
  shows "cmd_err (git env log [''branch'', ''-d'', n]) = None
       \<and> log' = log @ [[''branch'', ''-d'', n], [''push'', ''origin'', ''--delete'', n]]"
  using assms
  by (auto simp: deleteNextBranch_def DeleteLocalBranch_def DeleteRemoteBranch_def exec_def
        failWithOutput_def split: option.splits if_splits)


text \<open>
  C1, as the specification states it, fails. With two selected branches and a failing fetch,
  the run records the failure against the first branch and then checks out, rebases and
  pushes the second one: the queue is not aborted.
\<close>

theorem guard_failure_queue_not_aborted:
  "updateBaseFirst fetchFailEnv [] mainConfig
     = ([[''fetch'', ''upstream'', ''main'']], Some ''fetch failed'')
   \<and> drive fetchFailEnv []
        (runningModel stateUpdating
           [mkBranch ''feature-a'' [] True, mkBranch ''feature-b'' [] True] 0)
        (UpdateNextBranch
           (runningModel stateUpdating
              [mkBranch ''feature-a'' [] True, mkBranch ''feature-b'' [] True] 0))
     = Inr ([[''fetch'', ''upstream'', ''main''],
             [''checkout'', ''feature-b''],
             [''rebase'', ''main''],
             [''push'', ''origin'', ''feature-b'', ''--force-with-lease'']],
            (runningModel stateUpdating
               [mkBranch ''feature-a'' [] True,
                (mkBranch ''feature-b'' [] True)\<lparr>Status := ''updated''\<rparr>] 2)
              \<lparr>state := stateDone, successCount := 1,
                failedBranches := [''feature-a (fetch failed)'']\<rparr>)"
  by code_simp

text \<open>
  C1, amended. In update mode at queue position 0, if the base-branch step (fetch, divergence
  check, checkout, reset, push) fails, only commands of that step have run, the failure is
  recorded against the first branch with the success count unchanged, and the index advances
  to 1. A queue of length 1 ends in \<open>stateDone\<close>; for a longer queue the driver stays in
  \<open>stateUpdating\<close> and continues with position 1: the run ends in \<open>stateDone\<close> after every
  position \<open>1..n-1\<close> has been checked out.
\<close>

theorem guard_failure_recorded_queue_continues:
  assumes "state m = stateUpdating" and "config m = Some cfg"
      and "selectedForActionCount m = length (queue m)"
      and "updateIndex m = 0" and "0 < length (queue m)"
      and "updateBaseFirst env log cfg = (log1, Some e)"
  shows "\<exists>guard pop m1 c1 ext mF.
       log1 = log @ guard \<and> prefix guard (guardCmds cfg)
     \<and> updateNextBranch env log m = Inr (log1, branchUpdatedMsg (Name (queue m ! 0)) False e)
     \<and> Update env log1 m (branchUpdatedMsg (Name (queue m ! 0)) False e)
         = Inr (log1 @ pop, m1, c1)
     \<and> failedBranches m1 = failedBranches m @ [Name (queue m ! 0) @ '' ('' @ e @ '')'']
     \<and> successCount m1 = successCount m
     \<and> branches m1 = branches m
     \<and> updateIndex m1 = 1
     \<and> (if 1 < length (queue m)
         then c1 = UpdateNextBranch m1 \<and> state m1 = stateUpdating \<and> pop = []
         else c1 = CmdNil \<and> state m1 = stateDone)
     \<and> drive env log m (UpdateNextBranch m) = Inr (log1 @ ext, mF)
     \<and> state mF = stateDone
     \<and> updateIndex mF = length (queue m)
     \<and> (\<forall>j. 0 < j \<and> j < length (queue m) \<longrightarrow> [''checkout'', Name (queue m ! j)] \<in> set ext)"
proof -
  let ?t = "Name (queue m ! 0)"
  let ?msg = "branchUpdatedMsg ?t False e"
  obtain guard where g: "log1 = log @ guard" "prefix guard (guardCmds cfg)"
    using updateBaseFirst_cmds [of env log cfg] assms(6) by auto
  have run: "updateNextBranch env log m = Inr (log1, ?msg)"
    using updateNextBranch_guard_failure [OF assms(2,4,5,6)] .
  obtain pop m1 c1 where
    bd: "branchDone env log1 m ?t False e ''updated'' UpdateNextBranch = Inr (log1 @ pop, m1, c1)"
    and f: "failedBranches m1 = failedBranches m @ [?t @ '' ('' @ e @ '')'']"
    and sc: "successCount m1 = successCount m" and br: "branches m1 = branches m"
    and cf: "config m1 = config m"
    and cnt: "selectedForActionCount m1 = selectedForActionCount m"
    and idx: "updateIndex m1 = updateIndex m + 1"
    and nxt: "if updateIndex m + 1 < selectedForActionCount m
         then c1 = UpdateNextBranch m1 \<and> state m1 = state m \<and> pop = []
         else c1 = CmdNil \<and> state m1 = stateDone
              \<and> pop = (if didStash m then [[''stash'', ''pop'']] else [])"
    using branchDone_failure [of env log1 m ?t e "''updated''" UpdateNextBranch] by blast
  have upd: "Update env log1 m ?msg = Inr (log1 @ pop, m1, c1)"
    using bd by (simp add: Update_def)
  have q: "queue m1 = queue m" using br by (simp add: queue_def)
  have step: "drive env log m (UpdateNextBranch m) = drive env (log1 @ pop) m1 c1"
    using run upd by simp
  have "\<exists>ext mF. drive env log m (UpdateNextBranch m) = Inr (log1 @ ext, mF)
     \<and> state mF = stateDone \<and> updateIndex mF = length (queue m)
     \<and> (\<forall>j. 0 < j \<and> j < length (queue m) \<longrightarrow> [''checkout'', Name (queue m ! j)] \<in> set ext)"
  proof (cases "1 < length (queue m)")
    case False
    then have "c1 = CmdNil" "state m1 = stateDone" using nxt assms(3,4) by auto
    moreover have "updateIndex m1 = length (queue m)"
      using idx assms(4,5) False by (cases "queue m") auto
    ultimately show ?thesis using step False by auto
  next
    case True
    then have c1: "c1 = UpdateNextBranch m1" and p: "pop = []" using nxt assms(3,4) by auto
    obtain ext mF where d: "drive env log1 m1 (UpdateNextBranch m1) = Inr (log1 @ ext, mF)"
      "state mF = stateDone" "updateIndex mF = length (queue m1)"
      "\<forall>j. updateIndex m1 \<le> j \<and> 0 < j \<and> j < length (queue m1)
            \<longrightarrow> [''checkout'', map Name (queue m1) ! j] \<in> set ext"
      using drive_update_attempts_all [of m1 cfg env log1] cf cnt idx q assms(2,3,4) True
      by auto
    have "\<forall>j. 0 < j \<and> j < length (queue m) \<longrightarrow> [''checkout'', Name (queue m ! j)] \<in> set ext"
      using d(4) idx q assms(4) by auto
    then show ?thesis using step c1 p d(1,2,3) q by auto
  qed
  then obtain ext mF where "drive env log m (UpdateNextBranch m) = Inr (log1 @ ext, mF)"
     "state mF = stateDone" "updateIndex mF = length (queue m)"
     "\<forall>j. 0 < j \<and> j < length (queue m) \<longrightarrow> [''checkout'', Name (queue m ! j)] \<in> set ext"
    by blast
  moreover have "if 1 < length (queue m)
         then c1 = UpdateNextBranch m1 \<and> state m1 = stateUpdating \<and> pop = []
         else c1 = CmdNil \<and> state m1 = stateDone"
    using nxt assms(1,3,4) by (auto split: if_splits)
  moreover have "updateIndex m1 = 1" using idx assms(4) by simp
  ultimately show ?thesis using g run upd f sc br by blast
qed


theorem guard_failure_recorded_queue_continues_witness:
  "state (runningModel stateUpdating
            [mkBranch ''feature-a'' [] True, mkBranch ''feature-b'' [] True] 0) = stateUpdating
   \<and> updateBaseFirst divergedEnv [] mainConfig
       = ([[''fetch'', ''upstream'', ''main''], [''rev-list'', ''main'', ''^upstream/main'']],
          Some (''local base branch '' @ [CHR 0x27] @ ''main'' @ [CHR 0x27]
                @ '' has diverged from '' @ [CHR 0x27] @ ''upstream/main'' @ [CHR 0x27]
                @ ''. Please resolve manually''))
   \<and> logOf (drive divergedEnv []
        (runningModel stateUpdating
           [mkBranch ''feature-a'' [] True, mkBranch ''feature-b'' [] True] 0)
        (UpdateNextBranch
           (runningModel stateUpdating
              [mkBranch ''feature-a'' [] True, mkBranch ''feature-b'' [] True] 0)))
       = [[''fetch'', ''upstream'', ''main''], [''rev-list'', ''main'', ''^upstream/main''],
          [''checkout'', ''feature-b''], [''rebase'', ''main''],
          [''push'', ''origin'', ''feature-b'', ''--force-with-lease'']]"
proof -
  let ?m = "runningModel stateUpdating
              [mkBranch ''feature-a'' [] True, mkBranch ''feature-b'' [] True] 0"
  let ?e = "''local base branch '' @ [CHR 0x27] @ ''main'' @ [CHR 0x27]
                @ '' has diverged from '' @ [CHR 0x27] @ ''upstream/main'' @ [CHR 0x27]
                @ ''. Please resolve manually''"
  let ?log1 = "[[''fetch'', ''upstream'', ''main''], [''rev-list'', ''main'', ''^upstream/main'']]"
  have h1: "state ?m = stateUpdating" by code_simp
  have h2: "config ?m = Some mainConfig" by code_simp
  have h3: "selectedForActionCount ?m = length (queue ?m)" by code_simp
  have h4: "updateIndex ?m = 0" by code_simp
  have h5: "0 < length (queue ?m)" by code_simp
  have h6: "updateBaseFirst divergedEnv [] mainConfig = (?log1, Some ?e)" by code_simp
  have r: "logOf (drive divergedEnv [] ?m (UpdateNextBranch ?m))
       = [[''fetch'', ''upstream'', ''main''], [''rev-list'', ''main'', ''^upstream/main''],
          [''checkout'', ''feature-b''], [''rebase'', ''main''],
          [''push'', ''origin'', ''feature-b'', ''--force-with-lease'']]"
    by code_simp
  have k: "\<exists>ext mF. drive divergedEnv [] ?m (UpdateNextBranch ?m) = Inr (?log1 @ ext, mF)
             \<and> state mF = stateDone"
    using guard_failure_recorded_queue_continues [OF h1 h2 h3 h4 h5 h6] by blast
  from k h1 h6 r show ?thesis by blast
qed

text \<open>
  C4. In update mode at a queue position \<open>k > 0\<close>, if the checkout of the branch succeeds
  and its rebase fails, the commands run are the checkout, the rebase and
  \<open>git rebase --abort\<close> (no push); the failure is recorded against that branch with the
  reason ``rebase conflict'', the branch list and the success count are unchanged, and the
  driver continues: the index advances, the next branch command is issued while positions
  remain, and the run ends in \<open>stateDone\<close> after every position \<open>k+1..n-1\<close> has been
  checked out.
\<close>

theorem rebase_conflict_recorded_queue_continues:
  assumes "state m = stateUpdating" and "config m = Some cfg"
      and "selectedForActionCount m = length (queue m)"
      and "updateIndex m = k" and "0 < k" and "k < length (queue m)"
      and "cmd_err (git env log [''checkout'', Name (queue m ! k)]) = None"
      and "cmd_err (git env (log @ [[''checkout'', Name (queue m ! k)]])
                     [''rebase'', BaseBranch cfg]) = Some e"
  shows "\<exists>log1 pop m1 c1 ext mF.
       log1 = log @ conflictCmds cfg (Name (queue m ! k))
     \<and> updateNextBranch env log m
         = Inr (log1, branchUpdatedMsg (Name (queue m ! k)) False ''rebase conflict'')
     \<and> Contains ''rebase conflict'' ''conflict''
     \<and> Update env log1 m (branchUpdatedMsg (Name (queue m ! k)) False ''rebase conflict'')
         = Inr (log1 @ pop, m1, c1)
     \<and> failedBranches m1 = failedBranches m @ [Name (queue m ! k) @ '' (rebase conflict)'']
     \<and> successCount m1 = successCount m
     \<and> branches m1 = branches m
     \<and> updateIndex m1 = k + 1
     \<and> (if k + 1 < length (queue m)
         then c1 = UpdateNextBranch m1 \<and> state m1 = stateUpdating \<and> pop = []
         else c1 = CmdNil \<and> state m1 = stateDone)
     \<and> drive env log m (UpdateNextBranch m) = Inr (log1 @ ext, mF)
     \<and> state mF = stateDone
     \<and> updateIndex mF = length (queue m)
     \<and> (\<forall>j. k < j \<and> j < length (queue m) \<longrightarrow> [''checkout'', Name (queue m ! j)] \<in> set ext)"
proof -
  let ?t = "Name (queue m ! k)"
  let ?log1 = "log @ conflictCmds cfg ?t"
  let ?msg = "branchUpdatedMsg ?t False ''rebase conflict''"
  have run: "updateNextBranch env log m = Inr (?log1, ?msg)"
    using updateNextBranch_conflict [OF assms(2,4,5,6,7,8)] .
  obtain pop m1 c1 where
    bd: "branchDone env ?log1 m ?t False ''rebase conflict'' ''updated'' UpdateNextBranch
           = Inr (?log1 @ pop, m1, c1)"
    and f: "failedBranches m1 = failedBranches m @ [?t @ '' ('' @ ''rebase conflict'' @ '')'']"
    and sc: "successCount m1 = successCount m" and br: "branches m1 = branches m"
    and cf: "config m1 = config m"
    and cnt: "selectedForActionCount m1 = selectedForActionCount m"
    and idx: "updateIndex m1 = updateIndex m + 1"
    and nxt: "if updateIndex m + 1 < selectedForActionCount m
         then c1 = UpdateNextBranch m1 \<and> state m1 = state m \<and> pop = []
         else c1 = CmdNil \<and> state m1 = stateDone
              \<and> pop = (if didStash m then [[''stash'', ''pop'']] else [])"
    using branchDone_failure [of env ?log1 m ?t "''rebase conflict''" "''updated''" UpdateNextBranch]
    by blast
  have upd: "Update env ?log1 m ?msg = Inr (?log1 @ pop, m1, c1)"
    using bd by (simp add: Update_def)
  have q: "queue m1 = queue m" using br by (simp add: queue_def)
  have step: "drive env log m (UpdateNextBranch m) = drive env (?log1 @ pop) m1 c1"
    using run upd by simp
  have "\<exists>ext mF. drive env log m (UpdateNextBranch m) = Inr (?log1 @ ext, mF)
     \<and> state mF = stateDone \<and> updateIndex mF = length (queue m)
     \<and> (\<forall>j. k < j \<and> j < length (queue m) \<longrightarrow> [''checkout'', Name (queue m ! j)] \<in> set ext)"
  proof (cases "k + 1 < length (queue m)")
    case False
    then have "c1 = CmdNil" "state m1 = stateDone" using nxt assms(3,4) by auto
    moreover have "updateIndex m1 = length (queue m)" using idx assms(4,6) False by simp
    ultimately show ?thesis using step False by auto
  next
    case True
    then have c1: "c1 = UpdateNextBranch m1" and p: "pop = []" using nxt assms(3,4) by auto
    obtain ext mF where d: "drive env ?log1 m1 (UpdateNextBranch m1) = Inr (?log1 @ ext, mF)"
      "state mF = stateDone" "updateIndex mF = length (queue m1)"
      "\<forall>j. updateIndex m1 \<le> j \<and> 0 < j \<and> j < length (queue m1)
            \<longrightarrow> [''checkout'', map Name (queue m1) ! j] \<in> set ext"
      using drive_update_attempts_all [of m1 cfg env ?log1] cf cnt idx q assms(2,3,4) True
      by auto
    have "\<forall>j. k < j \<and> j < length (queue m) \<longrightarrow> [''checkout'', Name (queue m ! j)] \<in> set ext"
      using d(4) idx q assms(4) by auto
    then show ?thesis using step c1 p d(1,2,3) q by auto
  qed
  then obtain ext mF where "drive env log m (UpdateNextBranch m) = Inr (?log1 @ ext, mF)"
     "state mF = stateDone" "updateIndex mF = length (queue m)"
     "\<forall>j. k < j \<and> j < length (queue m) \<longrightarrow> [''checkout'', Name (queue m ! j)] \<in> set ext"
    by blast
  moreover have "if k + 1 < length (queue m)
         then c1 = UpdateNextBranch m1 \<and> state m1 = stateUpdating \<and> pop = []
         else c1 = CmdNil \<and> state m1 = stateDone"
    using nxt assms(1,3,4) by (auto split: if_splits)
  moreover have "updateIndex m1 = k + 1" using idx assms(4) by simp
  moreover have "failedBranches m1 = failedBranches m @ [?t @ '' (rebase conflict)'']"
    using f by simp
  ultimately show ?thesis using run upd sc br conflict_word by blast
qed



theorem rebase_conflict_recorded_queue_continues_witness:
  "updateIndex (runningModel stateUpdating
       [mkBranch ''feature-a'' [] True, mkBranch ''feature-b'' [] True,
        mkBranch ''feature-c'' [] True] 1) = 1
   \<and> cmd_err (git conflictEnv [[''checkout'', ''feature-b'']] [''rebase'', ''main''])
       = Some ''exit status 1''
   \<and> drive conflictEnv []
        (runningModel stateUpdating
           [mkBranch ''feature-a'' [] True, mkBranch ''feature-b'' [] True,
            mkBranch ''feature-c'' [] True] 1)
        (UpdateNextBranch
           (runningModel stateUpdating
              [mkBranch ''feature-a'' [] True, mkBranch ''feature-b'' [] True,
               mkBranch ''feature-c'' [] True] 1))
     = Inr ([[''checkout'', ''feature-b''], [''rebase'', ''main''], [''rebase'', ''--abort''],
             [''checkout'', ''feature-c''], [''rebase'', ''main''],
             [''push'', ''origin'', ''feature-c'', ''--force-with-lease'']],
            (runningModel stateUpdating
               [mkBranch ''feature-a'' [] True, mkBranch ''feature-b'' [] True,
                (mkBranch ''feature-c'' [] True)\<lparr>Status := ''updated''\<rparr>] 3)
              \<lparr>state := stateDone, successCount := 1,
                failedBranches := [''feature-b (rebase conflict)'']\<rparr>)"
proof -
  let ?m = "runningModel stateUpdating
              [mkBranch ''feature-a'' [] True, mkBranch ''feature-b'' [] True,
               mkBranch ''feature-c'' [] True] 1"
  have h1: "state ?m = stateUpdating" by code_simp
  have h2: "config ?m = Some mainConfig" by code_simp
  have h3: "selectedForActionCount ?m = length (queue ?m)" by code_simp
  have h4: "updateIndex ?m = 1" by code_simp
  have h5: "(0::nat) < 1" by simp
  have h6: "1 < length (queue ?m)" by code_simp
  have h7: "cmd_err (git conflictEnv [] [''checkout'', Name (queue ?m ! 1)]) = None"
    by code_simp
  have h8: "cmd_err (git conflictEnv ([] @ [[''checkout'', Name (queue ?m ! 1)]])
                       [''rebase'', BaseBranch mainConfig]) = Some ''exit status 1''"
    by code_simp
  have h9: "cmd_err (git conflictEnv [[''checkout'', ''feature-b'']] [''rebase'', ''main''])
       = Some ''exit status 1''"
    by code_simp
  have r: "drive conflictEnv [] ?m (UpdateNextBranch ?m)
     = Inr ([[''checkout'', ''feature-b''], [''rebase'', ''main''], [''rebase'', ''--abort''],
             [''checkout'', ''feature-c''], [''rebase'', ''main''],
             [''push'', ''origin'', ''feature-c'', ''--force-with-lease'']],
            (runningModel stateUpdating
               [mkBranch ''feature-a'' [] True, mkBranch ''feature-b'' [] True,
                (mkBranch ''feature-c'' [] True)\<lparr>Status := ''updated''\<rparr>] 3)
              \<lparr>state := stateDone, successCount := 1,
                failedBranches := [''feature-b (rebase conflict)'']\<rparr>)"
    by code_simp
  have k: "\<exists>ext mF. drive conflictEnv [] ?m (UpdateNextBranch ?m)
              = Inr (([] @ conflictCmds mainConfig (Name (queue ?m ! 1))) @ ext, mF)
             \<and> state mF = stateDone"
    using rebase_conflict_recorded_queue_continues [OF h1 h2 h3 h4 h5 h6 h7 h8] by blast
  from k h4 h9 r show ?thesis by blast
qed

text \<open>
  C10. In delete mode, if \<open>git branch -d\<close> fails for the branch at the current queue
  position, it is the only command run for that branch (no \<open>git push origin --delete\<close>),
  exactly one entry, the branch name followed by the reason in parentheses, is appended to
  the failures, the success count is unchanged and the driver continues with the next
  position (or ends in \<open>stateDone\<close> after the last one). Whenever \<open>deleteNextBranch\<close> runs a
  remote delete, the local delete of that branch has succeeded just before.
\<close>

theorem local_delete_failure_skips_remote:
  assumes "state m = stateDeleting"
      and "selectedForActionCount m = length (queue m)"
      and "updateIndex m = k" and "k < length (queue m)"
      and "cmd_err (git env log [''branch'', ''-d'', Name (queue m ! k)]) = Some x"
  shows "\<exists>log1 reason pop m1 c1.
       log1 = log @ [[''branch'', ''-d'', Name (queue m ! k)]]
     \<and> deleteNextBranch env log m
         = Inr (log1, branchDeletedMsg (Name (queue m ! k)) False reason)
     \<and> (\<forall>n. [''push'', ''origin'', ''--delete'', n] \<notin> set (drop (length log) log1))
     \<and> Update env log1 m (branchDeletedMsg (Name (queue m ! k)) False reason)
         = Inr (log1 @ pop, m1, c1)
     \<and> failedBranches m1 = failedBranches m @ [Name (queue m ! k) @ '' ('' @ reason @ '')'']
     \<and> successCount m1 = successCount m
     \<and> branches m1 = branches m
     \<and> updateIndex m1 = k + 1
     \<and> (if k + 1 < length (queue m)
         then c1 = DeleteNextBranch m1 \<and> state m1 = stateDeleting \<and> pop = []
         else c1 = CmdNil \<and> state m1 = stateDone)
     \<and> (\<forall>log' log'' m' msg n.
           deleteNextBranch env log' m' = Inr (log'', msg)
           \<and> [''push'', ''origin'', ''--delete'', n] \<in> set (drop (length log') log'')
           \<longrightarrow> cmd_err (git env log' [''branch'', ''-d'', n]) = None)"
proof -
  let ?t = "Name (queue m ! k)"
  let ?log1 = "log @ [[''branch'', ''-d'', ?t]]"
  let ?reason = "Errorf0 env (TrimSpace (cmd_out (git env log [''branch'', ''-d'', ?t])))"
  let ?msg = "branchDeletedMsg ?t False ?reason"
  have run: "deleteNextBranch env log m = Inr (?log1, ?msg)"
    using assms(3,4,5)
    by (simp add: deleteNextBranch_def findTarget_queue DeleteLocalBranch_def exec_def
          failWithOutput_def)
  obtain pop m1 c1 where
    bd: "branchDone env ?log1 m ?t False ?reason ''deleted'' DeleteNextBranch
           = Inr (?log1 @ pop, m1, c1)"
    and f: "failedBranches m1 = failedBranches m @ [?t @ '' ('' @ ?reason @ '')'']"
    and sc: "successCount m1 = successCount m" and br: "branches m1 = branches m"
    and idx: "updateIndex m1 = updateIndex m + 1"
    and nxt: "if updateIndex m + 1 < selectedForActionCount m
         then c1 = DeleteNextBranch m1 \<and> state m1 = state m \<and> pop = []
         else c1 = CmdNil \<and> state m1 = stateDone
              \<and> pop = (if didStash m then [[''stash'', ''pop'']] else [])"
    using branchDone_failure [of env ?log1 m ?t ?reason "''deleted''" DeleteNextBranch] by blast
  have upd: "Update env ?log1 m ?msg = Inr (?log1 @ pop, m1, c1)"
    using bd by (simp add: Update_def)
  have n1: "\<forall>n. [''push'', ''origin'', ''--delete'', n] \<notin> set (drop (length log) ?log1)"
    by simp
  have n2: "if k + 1 < length (queue m)
         then c1 = DeleteNextBranch m1 \<and> state m1 = stateDeleting \<and> pop = []
         else c1 = CmdNil \<and> state m1 = stateDone"
    using nxt assms(1,2,3) by (auto split: if_splits)
  have n3: "updateIndex m1 = k + 1" using idx assms(3) by simp
  have n4: "\<forall>log' log'' m' msg n.
           deleteNextBranch env log' m' = Inr (log'', msg)
           \<and> [''push'', ''origin'', ''--delete'', n] \<in> set (drop (length log') log'')
           \<longrightarrow> cmd_err (git env log' [''branch'', ''-d'', n]) = None"
    using deleteNextBranch_remote_after_local by blast
  show ?thesis using run n1 upd f sc br n3 n2 n4 by blast
qed


theorem local_delete_failure_skips_remote_witness:
  "cmd_err (git deleteFailEnv [] [''branch'', ''-d'', ''feature-a'']) = Some ''exit status 1''
   \<and> deleteNextBranch deleteFailEnv [[''branch'', ''-d'', ''feature-a'']]
        (runningModel stateDeleting
           [mkBranch ''feature-a'' [] True, mkBranch ''feature-b'' [] True] 1)
       = Inr ([[''branch'', ''-d'', ''feature-a''],
               [''branch'', ''-d'', ''feature-b''],
               [''push'', ''origin'', ''--delete'', ''feature-b'']],
              branchDeletedMsg ''feature-b'' True [])
   \<and> cmd_err (git deleteFailEnv [[''branch'', ''-d'', ''feature-a'']]
                 [''branch'', ''-d'', ''feature-b'']) = None
   \<and> drive deleteFailEnv []
        (runningModel stateDeleting
           [mkBranch ''feature-a'' [] True, mkBranch ''feature-b'' [] True] 0)
        (DeleteNextBranch
           (runningModel stateDeleting
              [mkBranch ''feature-a'' [] True, mkBranch ''feature-b'' [] True] 0))
     = Inr ([[''branch'', ''-d'', ''feature-a''],
             [''branch'', ''-d'', ''feature-b''],
             [''push'', ''origin'', ''--delete'', ''feature-b'']],
            (runningModel stateDeleting
               [mkBranch ''feature-a'' [] True,
                (mkBranch ''feature-b'' [] True)\<lparr>Status := ''deleted''\<rparr>] 2)
              \<lparr>state := stateDone, successCount := 1,
                failedBranches := [''feature-a (error: not fully merged)'']\<rparr>)"
proof -
  let ?m = "runningModel stateDeleting
              [mkBranch ''feature-a'' [] True, mkBranch ''feature-b'' [] True] 0"
  let ?m1 = "runningModel stateDeleting
              [mkBranch ''feature-a'' [] True, mkBranch ''feature-b'' [] True] 1"
  let ?l1 = "[[''branch'', ''-d'', ''feature-a'']]"
  let ?l2 = "[[''branch'', ''-d'', ''feature-a''], [''branch'', ''-d'', ''feature-b''],
              [''push'', ''origin'', ''--delete'', ''feature-b'']]"
  have h1: "state ?m = stateDeleting" by code_simp
  have h2: "selectedForActionCount ?m = length (queue ?m)" by code_simp
  have h3: "updateIndex ?m = 0" by code_simp
  have h4: "0 < length (queue ?m)" by code_simp
  have h5: "cmd_err (git deleteFailEnv [] [''branch'', ''-d'', Name (queue ?m ! 0)])
              = Some ''exit status 1''" by code_simp
  have h6: "cmd_err (git deleteFailEnv [] [''branch'', ''-d'', ''feature-a''])
              = Some ''exit status 1''" by code_simp
  have s2: "deleteNextBranch deleteFailEnv ?l1 ?m1
              = Inr (?l2, branchDeletedMsg ''feature-b'' True [])" by code_simp
  have p: "[''push'', ''origin'', ''--delete'', ''feature-b''] \<in> set (drop (length ?l1) ?l2)"
    by simp
  have r: "drive deleteFailEnv [] ?m (DeleteNextBranch ?m)
     = Inr (?l2,
            (runningModel stateDeleting
               [mkBranch ''feature-a'' [] True,
                (mkBranch ''feature-b'' [] True)\<lparr>Status := ''deleted''\<rparr>] 2)
              \<lparr>state := stateDone, successCount := 1,
                failedBranches := [''feature-a (error: not fully merged)'']\<rparr>)"
    by code_simp
  have k: "\<forall>log' log'' m' msg n.
           deleteNextBranch deleteFailEnv log' m' = Inr (log'', msg)
           \<and> [''push'', ''origin'', ''--delete'', n] \<in> set (drop (length log') log'')
           \<longrightarrow> cmd_err (git deleteFailEnv log' [''branch'', ''-d'', n]) = None"
    using local_delete_failure_skips_remote [OF h1 h2 h3 h4 h5] by blast
  have ok: "cmd_err (git deleteFailEnv ?l1 [''branch'', ''-d'', ''feature-b'']) = None"
    using k s2 p by blast
  from h6 s2 ok r show ?thesis by blast
qed

section \<open>The session state machine\<close>

text \<open>
  C3 fails on the code. With uncommitted changes and no branch selected, \<open>enter\<close> opens the
  stash prompt, \<open>y\<close> runs \<open>git stash\<close> and sets \<open>didStash\<close>, the handler returns to
  \<open>stateBrowsing\<close> because nothing is selected, and \<open>q\<close> quits from there: the only commands of
  the session are the status query and the stash; \<open>git stash pop\<close> is never run.
\<close>

theorem stash_left_unpopped_on_quit:
  "session dirtyEnv [] (browsingModel [mkBranch ''feature-a'' [] False]) [''enter'', ''y'', ''q'']
     = Inr ([[''status'', ''--porcelain'', ''-uno''], [''stash'']],
            (browsingModel [mkBranch ''feature-a'' [] False])
              \<lparr>message := ''No branches selected'', didStash := True,
                commandLog := updateCommandLog mainConfig [mkBranch ''feature-a'' [] False]\<rparr>,
            Quit)
   \<and> [''stash'', ''pop''] \<notin> set [[''status'', ''--porcelain'', ''-uno''], [''stash'']]"
  by code_simp

text \<open>
  C6, as the specification states it, fails: in \<open>stateDone\<close> the key \<open>x\<close> changes nothing; the
  session stays in \<open>stateDone\<close> with its selection and its counts.
\<close>

theorem done_other_key_changes_nothing:
  "Update quietEnv [] doneModel (KeyMsg ''x'') = Inr ([], doneModel, CmdNil)
   \<and> state doneModel = stateDone
   \<and> selectedCount (branches doneModel) = 1
   \<and> successCount doneModel = 1"
  by code_simp

lemma deselectAll_props:
  "(\<forall>b \<in> set (deselectAll bs). \<not> Selected b) \<and> map Name (deselectAll bs) = map Name bs"
  by (simp add: deselectAll_def)

text \<open>
  C6, amended. In \<open>stateDone\<close> and \<open>stateError\<close>, space and enter reset the session to
  \<open>stateBrowsing\<close>: no branch is selected, the success count, the failures, the update index
  and the queue length are zero or empty, delete mode and the stash flag are off, and no git
  command runs. \<open>q\<close> and \<open>ctrl+c\<close> quit, after \<open>git stash pop\<close> if the stash flag is set.
  Every other key leaves the session as it is.
\<close>

theorem done_error_key_handling:
  assumes "state m = stateDone \<or> state m = stateError"
  shows "(key = '' '' \<or> key = ''enter'' \<longrightarrow>
           (\<exists>m'. Update env log m (KeyMsg key) = Inr (log, m', CmdNil)
              \<and> state m' = stateBrowsing
              \<and> (\<forall>b \<in> set (branches m'). \<not> Selected b)
              \<and> map Name (branches m') = map Name (branches m)
              \<and> successCount m' = 0 \<and> failedBranches m' = [] \<and> updateIndex m' = 0
              \<and> selectedForActionCount m' = 0
              \<and> \<not> deleteMode m' \<and> \<not> didStash m'))
       \<and> (key = ''q'' \<or> key = ''ctrl+c'' \<longrightarrow>
            Update env log m (KeyMsg key)
              = Inr (if didStash m then log @ [[''stash'', ''pop'']] else log,
                     m\<lparr>deleteMode := False\<rparr>, Quit))
       \<and> (key \<notin> {'' '', ''enter'', ''q'', ''ctrl+c''} \<longrightarrow>
            Update env log m (KeyMsg key) = Inr (log, m, CmdNil))"
  using assms deselectAll_props [of "branches m"]
  by (auto simp: Update_def handleKeyPress_def StashPop_def exec_def)


theorem done_error_key_handling_witness:
  "state doneModel = stateDone
   \<and> Update quietEnv [] doneModel (KeyMsg ''enter'')
       = Inr ([], browsingModel [(mkBranch ''feature-a'' [] False)\<lparr>Status := ''updated''\<rparr>],
              CmdNil)
   \<and> Update quietEnv [] (doneModel\<lparr>didStash := True\<rparr>) (KeyMsg ''q'')
       = Inr ([[''stash'', ''pop'']], doneModel\<lparr>didStash := True\<rparr>, Quit)"
proof -
  have h: "state doneModel = stateDone" by code_simp
  have a: "Update quietEnv [] doneModel (KeyMsg ''enter'')
       = Inr ([], browsingModel [(mkBranch ''feature-a'' [] False)\<lparr>Status := ''updated''\<rparr>],
              CmdNil)" by code_simp
  have b: "Update quietEnv [] (doneModel\<lparr>didStash := True\<rparr>) (KeyMsg ''q'')
       = Inr ([[''stash'', ''pop'']], doneModel\<lparr>didStash := True\<rparr>, Quit)" by code_simp
  have k: "\<exists>m'. Update quietEnv [] doneModel (KeyMsg ''enter'') = Inr ([], m', CmdNil)
             \<and> state m' = stateBrowsing"
    using done_error_key_handling [of doneModel "''enter''" quietEnv "[]"] h by blast
  from k h a b show ?thesis by blast
qed

text \<open>
  C7. In \<open>stateBrowsing\<close> (not searching, not in delete mode) with uncommitted changes,
  \<open>enter\<close> runs the status query and opens the stash prompt; declining it with \<open>n\<close>, \<open>N\<close>,
  \<open>q\<close>, \<open>ctrl+c\<close> or \<open>esc\<close> runs no git command at all and returns to \<open>stateBrowsing\<close>. After the
  two keys the status query is the only command run (no fetch, checkout, reset or stash) and
  the model is the one before, with its branches, selection and configuration, except for
  the message ``Update cancelled.''.
\<close>

theorem decline_stash_runs_nothing:
  assumes "state m = stateBrowsing" and "\<not> searchMode m" and "\<not> deleteMode m"
      and "cmd_err (git env log [''status'', ''--porcelain'', ''-uno'']) = None"
      and "TrimSpace (cmd_out (git env log [''status'', ''--porcelain'', ''-uno''])) \<noteq> []"
      and "key \<in> {''n'', ''N'', ''q'', ''ctrl+c'', ''esc''}"
  shows "\<exists>log1 m1.
       log1 = log @ [[''status'', ''--porcelain'', ''-uno'']]
     \<and> Update env log m (KeyMsg ''enter'') = Inr (log1, m1, CmdNil)
     \<and> state m1 = stateConfirmingStash
     \<and> Update env log1 m1 (KeyMsg key) = Inr (log1, m\<lparr>message := ''Update cancelled.''\<rparr>, CmdNil)
     \<and> session env log m [''enter'', key]
         = Inr (log1, m\<lparr>message := ''Update cancelled.''\<rparr>, CmdNil)"
proof -
  let ?log1 = "log @ [[''status'', ''--porcelain'', ''-uno'']]"
  let ?m1 = "m\<lparr>state := stateConfirmingStash,
               message := ''You have uncommitted changes. Stash them and proceed? (y/n)''\<rparr>"
  have h: "HasUncommittedChanges env log = (?log1, True)"
    using assms(4,5) by (simp add: HasUncommittedChanges_def exec_def)
  have u1: "Update env log m (KeyMsg ''enter'') = Inr (?log1, ?m1, CmdNil)"
    using assms(1,2,3) h by (simp add: Update_def handleKeyPress_def handleBrowsingKeys_def)
  have eq: "?m1\<lparr>state := stateBrowsing, message := ''Update cancelled.''\<rparr>
              = m\<lparr>message := ''Update cancelled.''\<rparr>"
    using assms(1) by simp
  have u2: "Update env ?log1 ?m1 (KeyMsg key) = Inr (?log1, m\<lparr>message := ''Update cancelled.''\<rparr>, CmdNil)"
    using assms(6) eq by (auto simp: Update_def handleKeyPress_def handleConfirmingStashKeys_def)
  have s: "session env log m [''enter'', key] = Inr (?log1, m\<lparr>message := ''Update cancelled.''\<rparr>, CmdNil)"
    using u1 u2 by simp
  show ?thesis using u1 u2 s by simp
qed



theorem decline_stash_runs_nothing_witness:
  "state (browsingModel [mkBranch ''feature-a'' [] True]) = stateBrowsing
   \<and> TrimSpace (cmd_out (git dirtyEnv [] [''status'', ''--porcelain'', ''-uno''])) = ''M ui.go''
   \<and> session dirtyEnv [] (browsingModel [mkBranch ''feature-a'' [] True]) [''enter'', ''n'']
       = Inr ([[''status'', ''--porcelain'', ''-uno'']],
              (browsingModel [mkBranch ''feature-a'' [] True])\<lparr>message := ''Update cancelled.''\<rparr>,
              CmdNil)"
proof -
  let ?m = "browsingModel [mkBranch ''feature-a'' [] True]"
  have h1: "state ?m = stateBrowsing" by code_simp
  have h2: "\<not> searchMode ?m" by code_simp
  have h3: "\<not> deleteMode ?m" by code_simp
  have h4: "cmd_err (git dirtyEnv [] [''status'', ''--porcelain'', ''-uno'']) = None"
    by code_simp
  have t: "TrimSpace (cmd_out (git dirtyEnv [] [''status'', ''--porcelain'', ''-uno'']))
             = ''M ui.go''" by code_simp
  then have h5: "TrimSpace (cmd_out (git dirtyEnv [] [''status'', ''--porcelain'', ''-uno'']))
             \<noteq> []" by simp
  have h6: "''n'' \<in> {''n'', ''N'', ''q'', ''ctrl+c'', ''esc''}" by simp
  have "session dirtyEnv [] ?m [''enter'', ''n'']
       = Inr ([] @ [[''status'', ''--porcelain'', ''-uno'']],
              ?m\<lparr>message := ''Update cancelled.''\<rparr>, CmdNil)"
    using decline_stash_runs_nothing [OF h1 h2 h3 h4 h5 h6] by blast
  then show ?thesis using h1 t by simp
qed

lemma getFilteredBranches_no_query:
  assumes "searchQuery m = []" and "i < length (branches m)"
  shows "getFilteredBranches env m ! i = i"
  using assms by (simp add: getFilteredBranches_def)

lemma viewTagging_names_cursor_branch:
  assumes "cursor m < length (branches m)"
  shows "\<exists>pre post. viewTagging Render m
           = pre @ Render infoStyle (''  Branch: '' @ Name (branches m ! cursor m)) @ post"
proof -
  have "viewTagging Render m
      = (Render titleStyle ([CHR 0xF0, CHR 0x9F, CHR 0x8C, CHR 0xBF] @ '' GitSync - Tag Branch'')
           @ [CHR 0x0A, CHR 0x0A])
        @ Render infoStyle (''  Branch: '' @ Name (branches m ! cursor m))
        @ ([CHR 0x0A, CHR 0x0A] @ ''  Description: ''
           @ Render selectedStyle (tagInput m @ [CHR 0xE2, CHR 0x96, CHR 0x88])
           @ [CHR 0x0A, CHR 0x0A] @ Render dimStyle ''  enter: save  esc: cancel'')"
    using assms by (simp add: viewTagging_def Let_def)
  then show ?thesis by blast
qed

text \<open>
  C9, as the specification states it, fails in its last clause. With the filter \<open>bet\<close> over
  the branches \<open>alpha\<close> and \<open>beta\<close> and the cursor on \<open>beta\<close>, the keys \<open>t\<close> and \<open>!\<close> lead to a
  tag editor whose view names the branch \<open>alpha\<close> (above the edited description of \<open>beta\<close>),
  and \<open>enter\<close> stores the tag for \<open>alpha\<close>: the tag is saved to the branch displayed during
  editing, not to a different one.
\<close>

theorem tag_saved_to_displayed_branch:
  "searchQuery filteredModel = ''bet''
   \<and> session quietEnv [] filteredModel [''t'', ''!''] = Inr ([], taggingModel, CmdNil)
   \<and> viewTagging plainRender taggingModel
       = [CHR 0xF0, CHR 0x9F, CHR 0x8C, CHR 0xBF] @ '' GitSync - Tag Branch''
         @ [CHR 0x0A, CHR 0x0A] @ ''  Branch: alpha''
         @ [CHR 0x0A, CHR 0x0A] @ ''  Description: second!'' @ [CHR 0xE2, CHR 0x96, CHR 0x88]
         @ [CHR 0x0A, CHR 0x0A] @ ''  enter: save  esc: cancel''
   \<and> Update quietEnv [] taggingModel (KeyMsg ''enter'')
       = Inr ([[''config'', ''branch.alpha.description'', ''second!'']],
              filteredModel\<lparr>branches := [mkBranch ''alpha'' ''second!'' False,
                                          mkBranch ''beta'' ''second'' False]\<rparr>,
              CmdNil)"
  by code_simp

text \<open>
  C9, amended. \<open>t\<close> in \<open>stateBrowsing\<close> opens the tag editor with the description of the
  branch at the cursor position of the filtered view as its initial text. The tagging view
  names the branch at the cursor position of the unfiltered list \<open>m.branches\<close>, and \<open>enter\<close>
  in \<open>stateTagging\<close> stores the edited tag (or removes it, when empty) for that same branch.
  With an empty search query the filtered and the unfiltered position are the same branch for
  every cursor position. With a filter they can differ: with the filter \<open>bet\<close> over \<open>alpha\<close>
  and \<open>beta\<close>, the cursor on \<open>beta\<close> (filtered position 0, position 1 of \<open>m.branches\<close>), the
  keys \<open>t\<close>, \<open>!\<close>, \<open>enter\<close> store the edited description of \<open>beta\<close> as the tag of \<open>alpha\<close>.
\<close>

theorem tag_saved_at_unfiltered_cursor:
  "(state m = stateBrowsing \<and> \<not> searchMode m \<and> cursor m < length (getFilteredBranches env m)
      \<longrightarrow> Update env log m (KeyMsg ''t'')
            = Inr (log, m\<lparr>state := stateTagging,
                          tagInput := Description
                            (branches m ! (getFilteredBranches env m ! cursor m))\<rparr>, CmdNil))
   \<and> (state m = stateTagging \<and> cursor m < length (branches m)
      \<longrightarrow> Update env log m (KeyMsg ''enter'')
            = Inr (log @ [if tagInput m \<noteq> []
                          then [''config'', ''branch.'' @ Name (branches m ! cursor m)
                                  @ ''.description'', tagInput m]
                          else [''config'', ''--unset'', ''branch.''
                                  @ Name (branches m ! cursor m) @ ''.description'']],
                   m\<lparr>branches := (branches m)
                        [cursor m := (branches m ! cursor m)\<lparr>Description := tagInput m\<rparr>],
                     state := stateBrowsing, tagInput := []\<rparr>, CmdNil)
          \<and> (\<exists>pre post. viewTagging Render m
                = pre @ Render infoStyle (''  Branch: '' @ Name (branches m ! cursor m)) @ post))
   \<and> (searchQuery m = [] \<and> cursor m < length (branches m)
      \<longrightarrow> getFilteredBranches env m ! cursor m = cursor m)
   \<and> searchQuery filteredModel = ''bet''
   \<and> cursor filteredModel = 0
   \<and> getFilteredBranches quietEnv filteredModel ! cursor filteredModel = 1
   \<and> session quietEnv [] filteredModel [''t'', ''!'', ''enter'']
       = Inr ([[''config'', ''branch.alpha.description'', ''second!'']],
              filteredModel\<lparr>branches := [mkBranch ''alpha'' ''second!'' False,
                                          mkBranch ''beta'' ''second'' False]\<rparr>,
              CmdNil)"
proof -
  have a: "state m = stateBrowsing \<and> \<not> searchMode m \<and> cursor m < length (getFilteredBranches env m)
      \<longrightarrow> Update env log m (KeyMsg ''t'')
            = Inr (log, m\<lparr>state := stateTagging,
                          tagInput := Description
                            (branches m ! (getFilteredBranches env m ! cursor m))\<rparr>, CmdNil)"
    by (simp add: Update_def handleKeyPress_def handleBrowsingKeys_def Let_def)
  have b: "state m = stateTagging \<and> cursor m < length (branches m)
      \<longrightarrow> Update env log m (KeyMsg ''enter'')
            = Inr (log @ [if tagInput m \<noteq> []
                          then [''config'', ''branch.'' @ Name (branches m ! cursor m)
                                  @ ''.description'', tagInput m]
                          else [''config'', ''--unset'', ''branch.''
                                  @ Name (branches m ! cursor m) @ ''.description'']],
                   m\<lparr>branches := (branches m)
                        [cursor m := (branches m ! cursor m)\<lparr>Description := tagInput m\<rparr>],
                     state := stateBrowsing, tagInput := []\<rparr>, CmdNil)"
    by (simp add: Update_def handleKeyPress_def handleTaggingKeys_def Let_def
          SetBranchTag_def RemoveBranchTag_def exec_def)
  have v: "state m = stateTagging \<and> cursor m < length (branches m)
      \<longrightarrow> (\<exists>pre post. viewTagging Render m
                = pre @ Render infoStyle (''  Branch: '' @ Name (branches m ! cursor m)) @ post)"
    using viewTagging_names_cursor_branch by blast
  have c: "searchQuery m = [] \<and> cursor m < length (branches m)
      \<longrightarrow> getFilteredBranches env m ! cursor m = cursor m"
    using getFilteredBranches_no_query by blast
  have d: "searchQuery filteredModel = ''bet''" "cursor filteredModel = 0"
      "getFilteredBranches quietEnv filteredModel ! cursor filteredModel = 1"
    by code_simp+
  have e: "session quietEnv [] filteredModel [''t'', ''!'', ''enter'']
       = Inr ([[''config'', ''branch.alpha.description'', ''second!'']],
              filteredModel\<lparr>branches := [mkBranch ''alpha'' ''second!'' False,
                                          mkBranch ''beta'' ''second'' False]\<rparr>,
              CmdNil)"
    by code_simp
  show ?thesis using a b v c d e by blast
qed

theorem tag_saved_at_unfiltered_cursor_witness:
  "Update quietEnv [] filteredModel (KeyMsg ''t'')
     = Inr ([], filteredModel\<lparr>state := stateTagging, tagInput := ''second''\<rparr>, CmdNil)
   \<and> Name (branches filteredModel ! (getFilteredBranches quietEnv filteredModel
                                         ! cursor filteredModel)) = ''beta''
   \<and> Name (branches taggingModel ! cursor taggingModel) = ''alpha''
   \<and> Update quietEnv [] taggingModel (KeyMsg ''enter'')
       = Inr ([[''config'', ''branch.alpha.description'', ''second!'']],
              filteredModel\<lparr>branches := [mkBranch ''alpha'' ''second!'' False,
                                          mkBranch ''beta'' ''second'' False]\<rparr>,
              CmdNil)
   \<and> (\<exists>pre post. viewTagging plainRender taggingModel = pre @ ''  Branch: alpha'' @ post)
   \<and> getFilteredBranches quietEnv unfilteredModel ! cursor unfilteredModel = 1
   \<and> cursor unfilteredModel = 1"
proof -
  have h1: "state filteredModel = stateBrowsing \<and> \<not> searchMode filteredModel
              \<and> cursor filteredModel < length (getFilteredBranches quietEnv filteredModel)"
    by code_simp
  have h2: "state taggingModel = stateTagging
              \<and> cursor taggingModel < length (branches taggingModel)" by code_simp
  have h3: "searchQuery unfilteredModel = []
              \<and> cursor unfilteredModel < length (branches unfilteredModel)" by code_simp
  have n1: "Name (branches filteredModel ! (getFilteredBranches quietEnv filteredModel
                                         ! cursor filteredModel)) = ''beta''" by code_simp
  have n2: "Name (branches taggingModel ! cursor taggingModel) = ''alpha''" by code_simp
  have d1: "Description (branches filteredModel ! (getFilteredBranches quietEnv filteredModel
                                         ! cursor filteredModel)) = ''second''" by code_simp
  have a: "Update quietEnv [] filteredModel (KeyMsg ''t'')
     = Inr ([], filteredModel\<lparr>state := stateTagging, tagInput := ''second''\<rparr>, CmdNil)"
    using tag_saved_at_unfiltered_cursor [of filteredModel quietEnv "[]"] h1 d1 by simp
  have b: "Update quietEnv [] taggingModel (KeyMsg ''enter'')
       = Inr ([[''config'', ''branch.alpha.description'', ''second!'']],
              filteredModel\<lparr>branches := [mkBranch ''alpha'' ''second!'' False,
                                          mkBranch ''beta'' ''second'' False]\<rparr>,
              CmdNil)" by code_simp
  have v: "\<exists>pre post. viewTagging plainRender taggingModel
             = pre @ plainRender infoStyle
                      (''  Branch: '' @ Name (branches taggingModel ! cursor taggingModel)) @ post"
    using tag_saved_at_unfiltered_cursor [of taggingModel quietEnv "[]" plainRender] h2
    by blast
  have v': "\<exists>pre post. viewTagging plainRender taggingModel = pre @ ''  Branch: alpha'' @ post"
    using v n2 by (simp add: plainRender_def)
  have c: "getFilteredBranches quietEnv unfilteredModel ! cursor unfilteredModel
             = cursor unfilteredModel"
    using tag_saved_at_unfiltered_cursor [of unfilteredModel quietEnv "[]"] h3 by blast
  have d: "cursor unfilteredModel = 1" by code_simp
  from a n1 n2 b v' c d show ?thesis by simp
qed

end
